theory Spec2Isabelle
  imports Main
begin

section \<open>Strings as the program sees them\<close>

text \<open>
  The program is TypeScript: a string is a sequence of UTF-16 code units and
  \<^verbatim>\<open>s.length\<close> counts them. The model uses \<^typ>\<open>string\<close>, whose characters
  are the code units below 256; \<^const>\<open>length\<close> is \<^verbatim>\<open>.length\<close>. All labels,
  separators and character classes of the program are ASCII.
\<close>

definition isWhiteSpace :: "char \<Rightarrow> bool" where
  \<comment> \<open>WhiteSpace and LineTerminator of ECMAScript below 256: what \<^verbatim>\<open>trim()\<close>
      removes, what \<^verbatim>\<open>\s\<close> matches and what \<^verbatim>\<open>parseInt\<close> skips.\<close>
  "isWhiteSpace c \<longleftrightarrow>
     c = CHR 0x09 \<or> c = CHR 0x0A \<or> c = CHR 0x0B \<or> c = CHR 0x0C \<or> c = CHR 0x0D \<or>
     c = CHR 0x20 \<or> c = CHR 0xA0"

definition isLineTerminator :: "char \<Rightarrow> bool" where
  \<comment> \<open>what \<^verbatim>\<open>.\<close> of a regular expression refuses\<close>
  "isLineTerminator c \<longleftrightarrow> c = CHR 0x0A \<or> c = CHR 0x0D"

definition trim :: "string \<Rightarrow> string" where
  "trim s = rev (dropWhile isWhiteSpace (rev (dropWhile isWhiteSpace s)))"

definition startsWith :: "string \<Rightarrow> string \<Rightarrow> bool" where
  "startsWith s t \<longleftrightarrow> take (length t) s = t"

fun indexOfFrom :: "string \<Rightarrow> string \<Rightarrow> int \<Rightarrow> int" where
  "indexOfFrom [] t i = (if t = [] then i else - 1)"
| "indexOfFrom (c # cs) t i =
     (if startsWith (c # cs) t then i else indexOfFrom cs t (i + 1))"

definition indexOf :: "string \<Rightarrow> string \<Rightarrow> int" where
  \<comment> \<open>\<^verbatim>\<open>s.indexOf(t)\<close>: the first position of \<open>t\<close> in \<open>s\<close>, \<open>-1\<close> when there is none\<close>
  "indexOf s t = indexOfFrom s t 0"

definition includes_str :: "string \<Rightarrow> string \<Rightarrow> bool" where
  \<comment> \<open>\<^verbatim>\<open>s.includes(t)\<close>\<close>
  "includes_str s t \<longleftrightarrow> indexOf s t \<noteq> - 1"

definition substring :: "string \<Rightarrow> int \<Rightarrow> int \<Rightarrow> string" where
  \<comment> \<open>\<^verbatim>\<open>s.substring(a, b)\<close>: both ends are clamped to \<open>[0, length]\<close> and swapped
      when the first is the larger\<close>
  "substring s a b =
     (let len = int (length s);
          finalStart = min (max a 0) len;
          finalEnd = min (max b 0) len;
          lo = min finalStart finalEnd;
          hi = max finalStart finalEnd
      in take (nat (hi - lo)) (drop (nat lo) s))"

definition substringFrom :: "string \<Rightarrow> int \<Rightarrow> string" where
  \<comment> \<open>\<^verbatim>\<open>s.substring(a)\<close>: the end is the length\<close>
  "substringFrom s a = substring s a (int (length s))"

fun splitOn :: "char \<Rightarrow> string \<Rightarrow> string list" where
  \<comment> \<open>\<^verbatim>\<open>s.split(sep)\<close> for a separator of one character\<close>
  "splitOn sep [] = [[]]"
| "splitOn sep (c # cs) =
     (if c = sep then [] # splitOn sep cs
      else (case splitOn sep cs of
              [] \<Rightarrow> [[c]]
            | l # ls \<Rightarrow> (c # l) # ls))"

definition lines_of :: "string \<Rightarrow> string list" where
  \<comment> \<open>\<^verbatim>\<open>output.split("\n")\<close>\<close>
  "lines_of output = splitOn (CHR 0x0A) output"

section \<open>Regular expressions of the program\<close>

text \<open>
  \<^verbatim>\<open>str.match(re)\<close> without the \<^verbatim>\<open>g\<close> flag tries the pattern at position 0, 1, ...
  up to the end of the string and returns the first success. \<^term>\<open>search m s\<close> does
  that for a matcher \<open>m\<close> anchored at the start of its argument.
\<close>

fun search :: "(string \<Rightarrow> 'a option) \<Rightarrow> string \<Rightarrow> 'a option" where
  "search m [] = m []"
| "search m (c # cs) = (case m (c # cs) of Some r \<Rightarrow> Some r | None \<Rightarrow> search m cs)"

definition canonicalize :: "char \<Rightarrow> char" where
  \<comment> \<open>Canonicalize of the \<^verbatim>\<open>i\<close> flag (no \<^verbatim>\<open>u\<close> flag): upper case. A code unit from
      128 on never canonicalizes to an ASCII character, and every pattern
      character of the program is ASCII, so only ASCII letters are folded.\<close>
  "canonicalize c =
     (case map_of (zip ''abcdefghijklmnopqrstuvwxyz'' ''ABCDEFGHIJKLMNOPQRSTUVWXYZ'') c of
        Some u \<Rightarrow> u
      | None \<Rightarrow> c)"

definition startsWithCI :: "string \<Rightarrow> string \<Rightarrow> bool" where
  \<comment> \<open>a literal of a pattern with the \<^verbatim>\<open>i\<close> flag, at the start of \<open>s\<close>\<close>
  "startsWithCI s lit \<longleftrightarrow>
     map canonicalize (take (length lit) s) = map canonicalize lit"

definition isHexOrHyphen :: "char \<Rightarrow> bool" where
  \<comment> \<open>\<^verbatim>\<open>[A-F0-9-]\<close> under the \<^verbatim>\<open>i\<close> flag\<close>
  "isHexOrHyphen c \<longleftrightarrow> canonicalize c \<in> set ''ABCDEF0123456789-''"

definition isDigit :: "char \<Rightarrow> bool" where
  \<comment> \<open>\<^verbatim>\<open>\d\<close>\<close>
  "isDigit c \<longleftrightarrow> c \<in> set ''0123456789''"

definition notSlash :: "char \<Rightarrow> bool" where
  \<comment> \<open>\<^verbatim>\<open>[^\/]\<close>\<close>
  "notSlash c \<longleftrightarrow> c \<noteq> CHR ''/''"

definition identifierAt :: "string \<Rightarrow> string option" where
  \<comment> \<open>\<^verbatim>\<open>/Identifier:\s*([A-F0-9-]+)/i\<close> anchored: the group is the longest run of
      hexadecimal digits and hyphens after the white space; white space and
      the class are disjoint, so giving white space back never helps\<close>
  "identifierAt s =
     (if startsWithCI s ''Identifier:'' then
        (let run = takeWhile isHexOrHyphen
                     (dropWhile isWhiteSpace (drop (length ''Identifier:'') s))
         in if run = [] then None else Some run)
      else None)"

definition restOfLine :: "string \<Rightarrow> string option" where
  \<comment> \<open>\<^verbatim>\<open>\s*(.+)\<close> anchored: after the white space, the characters up to the first line
      terminator. When only white space is left, \<^verbatim>\<open>\s*\<close> gives characters back until
      \<^verbatim>\<open>.+\<close> has one that is no line terminator: the last such character.\<close>
  "restOfLine s =
     (let r = dropWhile isWhiteSpace s
      in if r \<noteq> [] then Some (takeWhile (\<lambda>c. \<not> isLineTerminator c) r)
         else (case filter (\<lambda>c. \<not> isLineTerminator c) s of
                 [] \<Rightarrow> None
               | x # xs \<Rightarrow> Some [last (x # xs)]))"

definition fieldAt :: "string \<Rightarrow> string \<Rightarrow> string option" where
  \<comment> \<open>\<^verbatim>\<open>/<label>:\s*(.+)/i\<close> anchored; \<open>lit\<close> is the label with its colon\<close>
  "fieldAt lit s =
     (if startsWithCI s lit then restOfLine (drop (length lit) s) else None)"

definition identifierRegex :: "string \<Rightarrow> string option" where
  "identifierRegex s = search identifierAt s"

definition nameRegex :: "string \<Rightarrow> string option" where
  "nameRegex s = search (fieldAt ''Name:'') s"

definition platformRegex :: "string \<Rightarrow> string option" where
  "platformRegex s = search (fieldAt ''Platform:'') s"

definition connectionRegex :: "string \<Rightarrow> string option" where
  "connectionRegex s = search (fieldAt ''Connection Type:'') s"

fun appBacktrack :: "nat \<Rightarrow> string \<Rightarrow> string option" where
  \<comment> \<open>\<^verbatim>\<open>\.app\<close> tried after the first \<open>k\<close> characters of the segment, then after
      \<open>k - 1\<close>, ..., down to one character\<close>
  "appBacktrack 0 seg = None"
| "appBacktrack (Suc k) seg =
     (if take 4 (drop (Suc k) seg) = ''.app'' then Some (take (Suc k + 4) seg)
      else appBacktrack k seg)"

definition appSegment :: "string \<Rightarrow> string option" where
  \<comment> \<open>\<^verbatim>\<open>[^\/]+\.app\<close> inside one path segment: the greedy \<^verbatim>\<open>[^\/]+\<close> first takes the whole
      segment and gives characters back one at a time, so the match ends at the
      last \<^verbatim>\<open>.app\<close> of the segment that has a character before it\<close>
  "appSegment seg = appBacktrack (length seg) seg"

definition bundleTail :: "string \<Rightarrow> (string \<times> string) option" where
  \<comment> \<open>\<^verbatim>\<open>([^\/]+)\/([^\/]+\.app)\<close> anchored: the first group is followed by a slash, so it
      is the whole run of characters up to the first slash\<close>
  "bundleTail s =
     (let b = takeWhile notSlash s
      in if b = [] then None
         else (case dropWhile notSlash s of
                 [] \<Rightarrow> None
               | sl # rest \<Rightarrow>
                   (case appSegment (takeWhile notSlash rest) of
                      None \<Rightarrow> None
                    | Some app \<Rightarrow> Some (b, app))))"

definition bundleAt :: "string \<Rightarrow> (string \<times> string) option" where
  \<comment> \<open>\<^verbatim>\<open>/Bundle\/Application\/([^\/]+)\/([^\/]+\.app)/\<close> anchored\<close>
  "bundleAt s =
     (if startsWith s ''Bundle/Application/'' then
        bundleTail (drop (length ''Bundle/Application/'') s)
      else None)"

definition pathAt :: "string \<Rightarrow> string option" where
  \<comment> \<open>\<^verbatim>\<open>/(\/private\/var\/containers\/Bundle\/Application\/[^\/]+\/[^\/]+\.app)/\<close> anchored\<close>
  "pathAt s =
     (if startsWith s ''/private/var/containers/Bundle/Application/'' then
        (case bundleTail (drop (length ''/private/var/containers/Bundle/Application/'') s) of
           None \<Rightarrow> None
         | Some (b, app) \<Rightarrow>
             Some (''/private/var/containers/Bundle/Application/'' @ b @ ''/'' @ app))
      else None)"

definition bundleMatch :: "string \<Rightarrow> (string \<times> string) option" where
  "bundleMatch s = search bundleAt s"

definition pathMatch :: "string \<Rightarrow> string option" where
  "pathMatch s = search pathAt s"

definition pidMatch :: "string \<Rightarrow> string option" where
  \<comment> \<open>\<^verbatim>\<open>/^\s*(\d+)/\<close>\<close>
  "pidMatch s =
     (let run = takeWhile isDigit (dropWhile isWhiteSpace s)
      in if run = [] then None else Some run)"

section \<open>\<^verbatim>\<open>parseInt\<close>\<close>

definition digitValue :: "char \<Rightarrow> nat option" where
  "digitValue c =
     map_of
       [(CHR ''0'', 0), (CHR ''1'', 1), (CHR ''2'', 2), (CHR ''3'', 3), (CHR ''4'', 4),
        (CHR ''5'', 5), (CHR ''6'', 6), (CHR ''7'', 7), (CHR ''8'', 8), (CHR ''9'', 9),
        (CHR ''a'', 10), (CHR ''b'', 11), (CHR ''c'', 12), (CHR ''d'', 13), (CHR ''e'', 14),
        (CHR ''f'', 15), (CHR ''A'', 10), (CHR ''B'', 11), (CHR ''C'', 12), (CHR ''D'', 13),
        (CHR ''E'', 14), (CHR ''F'', 15)] c"

definition isRadixDigit :: "nat \<Rightarrow> char \<Rightarrow> bool" where
  "isRadixDigit R c \<longleftrightarrow> (case digitValue c of None \<Rightarrow> False | Some d \<Rightarrow> d < R)"

definition digitsValue :: "nat \<Rightarrow> string \<Rightarrow> nat" where
  "digitsValue R Z =
     foldl (\<lambda>acc c. acc * R + (case digitValue c of None \<Rightarrow> 0 | Some d \<Rightarrow> d)) 0 Z"

definition parseInt :: "string \<Rightarrow> int option" where
  \<comment> \<open>\<^verbatim>\<open>parseInt(s)\<close> with no radix: leading white space is skipped, a sign is read,
      \<^verbatim>\<open>0x\<close> or \<^verbatim>\<open>0X\<close> selects radix 16, and the longest run of digits is the value;
      what follows the run is ignored. \<open>None\<close> is \<^verbatim>\<open>NaN\<close>. The value is the exact
      integer: the program only compares it with array lengths, and a double
      that has lost precision is larger than every array length.\<close>
  "parseInt s =
     (let S = dropWhile isWhiteSpace s;
          sign = (if startsWith S ''-'' then - 1 else 1 :: int);
          S1 = (if startsWith S ''-'' \<or> startsWith S ''+'' then drop 1 S else S);
          hex = (startsWith S1 ''0x'' \<or> startsWith S1 ''0X'');
          R = (if hex then 16 else 10 :: nat);
          S2 = (if hex then drop 2 S1 else S1);
          Z = takeWhile (isRadixDigit R) S2
      in if Z = [] then None else Some (sign * int (digitsValue R Z)))"

section \<open>Records, errors and effects\<close>

record DeviceInfo =
  "identifier" :: string
  name :: "string option"
  platform :: "string option"
  connectionType :: "string option"

record ApplicationInfo =
  bundleId :: string
  displayName :: "string option"
  pid :: "string option"
  fullPath :: "string option"

text \<open>\<^verbatim>\<open>Partial<DeviceInfo>\<close>, the type of \<^verbatim>\<open>currentDevice\<close>: every field may be absent.\<close>

record PartialDeviceInfo =
  cur_identifier :: "string option"
  cur_name :: "string option"
  cur_platform :: "string option"
  cur_connectionType :: "string option"

text \<open>
  The errors the program throws. The messages of its own errors are fixed texts;
  \<open>InvalidSelection n\<close> is the message that names the range from 1 to \<open>n\<close>.
  \<open>CommandFailed msg\<close> is the error \<^verbatim>\<open>execSync\<close> throws, with its message.
\<close>

datatype error =
    NoDevices
  | NoApplications
  | InvalidSelection nat
  | MissingFullPath
  | CommandFailed string

text \<open>
  \<^verbatim>\<open>execSync\<close> is a parameter \<open>exec\<close>: for a command line, the text the command
  prints (\<open>Inr\<close>) or the message of the error thrown (\<open>Inl\<close>). A function that may
  run commands returns its outcome with the commands it ran, in order.
\<close>

type_synonym shell = "string \<Rightarrow> string + string"

text \<open>
  A selection either settles without reading the terminal, or asks one question
  (\<^verbatim>\<open>rl.question\<close>) and settles in the callback on the line read. \<open>Question n k\<close>
  is the prompt for a number from 1 to \<open>n\<close> with callback \<open>k\<close>.
\<close>

datatype 'a interaction =
    Settled "error + 'a"
  | Question nat "string \<Rightarrow> error + 'a"

fun answered :: "'a interaction \<Rightarrow> string \<Rightarrow> error + 'a" where
  "answered (Settled r) line = r"
| "answered (Question n k) line = k line"

fun prompts :: "'a interaction \<Rightarrow> bool" where
  "prompts (Settled r) = False"
| "prompts (Question n k) = True"

section \<open>Applications\<close>

definition parseApplicationLine :: "ApplicationInfo list \<Rightarrow> string \<Rightarrow> ApplicationInfo list" where
  \<comment> \<open>the body of the loop of \<^verbatim>\<open>parseApplicationOutput\<close>\<close>
  "parseApplicationLine applications line =
     (let trimmedLine = trim line
      in if trimmedLine = [] then applications
         else (case bundleMatch trimmedLine of
                 None \<Rightarrow> applications
               | Some (bid, appName) \<Rightarrow>
                   (if find (\<lambda>app. bundleId app = bid) applications = None then
                      applications @
                        [\<lparr>bundleId = bid, displayName = Some appName,
                          pid = pidMatch trimmedLine, fullPath = pathMatch trimmedLine\<rparr>]
                    else applications)))"

definition parseApplicationOutput :: "string \<Rightarrow> ApplicationInfo list" where
  "parseApplicationOutput output = foldl parseApplicationLine [] (lines_of output)"

definition processesCommand :: "string \<Rightarrow> string" where
  "processesCommand deviceIdentifier =
     ''xcrun devicectl device info processes --device '' @ deviceIdentifier @
     '' | grep '' @ [CHR 0x27] @ ''Bundle/Application'' @ [CHR 0x27]"

definition getApplications :: "shell \<Rightarrow> string \<Rightarrow> (error + ApplicationInfo list) \<times> string list" where
  "getApplications exec deviceIdentifier =
     (let command = processesCommand deviceIdentifier
      in (case exec command of
            Inr output \<Rightarrow> (Inr (parseApplicationOutput output), [command])
          | Inl message \<Rightarrow>
              (if includes_str message ''No matching processes'' then (Inr [], [command])
               else (Inl (CommandFailed message), [command]))))"

definition selectApplication :: "ApplicationInfo list \<Rightarrow> ApplicationInfo interaction" where
  "selectApplication applications =
     (if length applications = 0 then Settled (Inl NoApplications)
      else if length applications = 1 then Settled (Inr (applications ! 0))
      else Question (length applications) (\<lambda>answer.
        (case parseInt (trim answer) of
           None \<Rightarrow> Inl (InvalidSelection (length applications))
         | Some selection \<Rightarrow>
             (if selection < 1 \<or> selection > int (length applications) then
                Inl (InvalidSelection (length applications))
              else Inr (applications ! nat (selection - 1))))))"

definition launchCommand :: "string \<Rightarrow> string \<Rightarrow> string" where
  "launchCommand deviceIdentifier path =
     ''xcrun devicectl device process launch -e '' @ [CHR 0x27] @ ''{'' @ [CHR 0x22] @
     ''MTL_HUD_ENABLED'' @ [CHR 0x22] @ '': '' @ [CHR 0x22] @ ''1'' @ [CHR 0x22] @ ''}'' @
     [CHR 0x27] @ '' --console --device '' @ deviceIdentifier @ '' '' @
     [CHR 0x22] @ path @ [CHR 0x22]"

definition launchAppWithMetalHUD ::
  "shell \<Rightarrow> string \<Rightarrow> ApplicationInfo \<Rightarrow> (error + unit) \<times> string list" where
  \<comment> \<open>\<^verbatim>\<open>!app.fullPath\<close> holds for an absent path and for the empty string\<close>
  "launchAppWithMetalHUD exec deviceIdentifier app =
     (case fullPath app of
        None \<Rightarrow> (Inl MissingFullPath, [])
      | Some path \<Rightarrow>
          (if path = [] then (Inl MissingFullPath, [])
           else (let command = launchCommand deviceIdentifier path
                 in (case exec command of
                       Inr output \<Rightarrow> (Inr (), [command])
                     | Inl message \<Rightarrow> (Inl (CommandFailed message), [command])))))"

section \<open>Devices\<close>

definition extractPlatformFromModel :: "string \<Rightarrow> string" where
  "extractPlatformFromModel model =
     (if includes_str model ''iPhone'' then ''iOS''
      else if includes_str model ''iPad'' then ''iPadOS''
      else if includes_str model ''Watch'' then ''watchOS''
      else if includes_str model ''Apple TV'' then ''tvOS''
      else if includes_str model ''Mac'' then ''macOS''
      else ''Unknown'')"

record Header =
  headerLineIndex :: int
  nameColStart :: int
  identifierColStart :: int
  stateColStart :: int
  modelColStart :: int

definition isHeaderLine :: "string \<Rightarrow> bool" where
  "isHeaderLine line \<longleftrightarrow>
     includes_str line ''Name'' \<and> includes_str line ''Identifier'' \<and>
     includes_str line ''State'' \<and> includes_str line ''Model''"

fun findHeader :: "string list \<Rightarrow> int \<Rightarrow> Header option" where
  \<comment> \<open>the first loop of \<^verbatim>\<open>parseDeviceOutput\<close>, from line \<open>i\<close> on; \<open>None\<close> is
      \<^verbatim>\<open>headerLineIndex === -1\<close> after the loop\<close>
  "findHeader [] i = None"
| "findHeader (line # rest) i =
     (if isHeaderLine line then
        Some \<lparr>headerLineIndex = i,
              nameColStart = indexOf line ''Name'',
              identifierColStart = indexOf line ''Identifier'',
              stateColStart = indexOf line ''State'',
              modelColStart = indexOf line ''Model''\<rparr>
      else findHeader rest (i + 1))"

definition parseRow :: "Header \<Rightarrow> DeviceInfo list \<Rightarrow> string \<Rightarrow> DeviceInfo list" where
  \<comment> \<open>the body of the second loop; \<^verbatim>\<open>substring\<close> and \<^verbatim>\<open>trim\<close> never throw, so the
      \<^verbatim>\<open>catch\<close> is never entered\<close>
  "parseRow h devices line =
     (if trim line = [] then devices
      else (let nm = trim (substring line (nameColStart h) (identifierColStart h));
                ident = trim (substring line (identifierColStart h) (stateColStart h));
                state = trim (substring line (stateColStart h) (modelColStart h));
                model = trim (substringFrom line (modelColStart h))
            in if ident \<noteq> [] \<and> length ident > 10 then
                 devices @
                   [\<lparr>identifier = ident,
                     name = (if nm = [] then None else Some nm),
                     platform = Some (extractPlatformFromModel model),
                     connectionType =
                       Some (if includes_str state ''paired'' then ''paired'' else ''available'')\<rparr>]
               else devices))"

definition emptyDevice :: PartialDeviceInfo where
  "emptyDevice =
     \<lparr>cur_identifier = None, cur_name = None, cur_platform = None, cur_connectionType = None\<rparr>"

definition isOpen :: "PartialDeviceInfo \<Rightarrow> bool" where
  \<comment> \<open>\<^verbatim>\<open>if (currentDevice.identifier)\<close>: present and not the empty string\<close>
  "isOpen cur \<longleftrightarrow> (case cur_identifier cur of None \<Rightarrow> False | Some i \<Rightarrow> i \<noteq> [])"

definition pushCurrent :: "DeviceInfo list \<Rightarrow> PartialDeviceInfo \<Rightarrow> DeviceInfo list" where
  \<comment> \<open>\<^verbatim>\<open>if (currentDevice.identifier) devices.push(currentDevice as DeviceInfo)\<close>\<close>
  "pushCurrent devices cur =
     (case cur_identifier cur of
        None \<Rightarrow> devices
      | Some i \<Rightarrow>
          (if i \<noteq> [] then
             devices @
               [\<lparr>identifier = i, name = cur_name cur, platform = cur_platform cur,
                 connectionType = cur_connectionType cur\<rparr>]
           else devices))"

definition legacyLine ::
  "DeviceInfo list \<times> PartialDeviceInfo \<Rightarrow> string \<Rightarrow> DeviceInfo list \<times> PartialDeviceInfo" where
  \<comment> \<open>the body of the loop of \<^verbatim>\<open>parseDeviceOutputLegacy\<close> on the state
      \<open>(devices, currentDevice)\<close>\<close>
  "legacyLine st line =
     (let devices = fst st; currentDevice = snd st; trimmedLine = trim line
      in (case identifierRegex trimmedLine of
            Some ident \<Rightarrow>
              (pushCurrent devices currentDevice, emptyDevice\<lparr>cur_identifier := Some ident\<rparr>)
          | None \<Rightarrow>
              (if isOpen currentDevice then
                 (case nameRegex trimmedLine of
                    Some v \<Rightarrow> (devices, currentDevice\<lparr>cur_name := Some v\<rparr>)
                  | None \<Rightarrow>
                      (case platformRegex trimmedLine of
                         Some v \<Rightarrow> (devices, currentDevice\<lparr>cur_platform := Some v\<rparr>)
                       | None \<Rightarrow>
                           (case connectionRegex trimmedLine of
                              Some v \<Rightarrow> (devices, currentDevice\<lparr>cur_connectionType := Some v\<rparr>)
                            | None \<Rightarrow> (devices, currentDevice))))
               else (devices, currentDevice))))"

definition parseDeviceOutputLegacy :: "string \<Rightarrow> DeviceInfo list" where
  "parseDeviceOutputLegacy output =
     (let st = foldl legacyLine ([], emptyDevice) (lines_of output)
      in pushCurrent (fst st) (snd st))"

definition parseDeviceOutput :: "string \<Rightarrow> DeviceInfo list" where
  "parseDeviceOutput output =
     (let lines = lines_of output
      in (case findHeader lines 0 of
            None \<Rightarrow> parseDeviceOutputLegacy output
          | Some h \<Rightarrow> foldl (parseRow h) [] (drop (nat (headerLineIndex h + 2)) lines)))"

definition selectDevice :: "DeviceInfo list \<Rightarrow> string interaction" where
  "selectDevice devices =
     (if length devices = 0 then Settled (Inl NoDevices)
      else if length devices = 1 then Settled (Inr (identifier (devices ! 0)))
      else Question (length devices) (\<lambda>answer.
        (case parseInt (trim answer) of
           None \<Rightarrow> Inl (InvalidSelection (length devices))
         | Some selection \<Rightarrow>
             (if selection < 1 \<or> selection > int (length devices) then
                Inl (InvalidSelection (length devices))
              else Inr (identifier (devices ! nat (selection - 1)))))))"

section \<open>Notions used to state the properties\<close>

text \<open>
  These definitions are not part of the program: they name the inputs and the
  expected results the properties below speak about.
\<close>

definition hexRun :: "string \<Rightarrow> bool" where
  \<comment> \<open>a non-empty run of hexadecimal digits and hyphens: what the identifier
      pattern captures\<close>
  "hexRun x \<longleftrightarrow> x \<noteq> [] \<and> list_all isHexOrHyphen x"

definition plainValue :: "string \<Rightarrow> bool" where
  \<comment> \<open>a field value as written after a label: not empty, no white space at
      either end, no colon and no line terminator inside\<close>
  "plainValue v \<longleftrightarrow>
     v \<noteq> [] \<and> \<not> isWhiteSpace (hd v) \<and> \<not> isWhiteSpace (last v) \<and>
     list_all (\<lambda>c. c \<noteq> CHR '':'' \<and> \<not> isLineTerminator c) v"

definition pending :: "PartialDeviceInfo \<Rightarrow> string list" where
  \<comment> \<open>the identifier of the record that is open, if one is\<close>
  "pending cur =
     (case cur_identifier cur of None \<Rightarrow> [] | Some i \<Rightarrow> (if i \<noteq> [] then [i] else []))"

definition identifierOfLine :: "string \<Rightarrow> string list" where
  \<comment> \<open>the identifier a line opens a record with, if it is an \<^verbatim>\<open>Identifier:\<close> line\<close>
  "identifierOfLine line =
     (case identifierRegex (trim line) of None \<Rightarrow> [] | Some i \<Rightarrow> [i])"

definition digitChar :: "nat \<Rightarrow> char" where
  "digitChar d = ''0123456789'' ! d"

fun decimal :: "nat \<Rightarrow> string" where
  \<comment> \<open>the decimal numeral of a natural number, as typed at the prompt\<close>
  "decimal n =
     (if n < 10 then [digitChar n] else decimal (n div 10) @ [digitChar (n mod 10)])"

declare decimal.simps [simp del]

definition decimalNumeral :: "string \<Rightarrow> bool" where
  \<comment> \<open>a line of digits\<close>
  "decimalNumeral s \<longleftrightarrow> s \<noteq> [] \<and> list_all isDigit s"

definition startsWithNumber :: "string \<Rightarrow> bool" where
  \<comment> \<open>after white space and an optional sign, the text begins with a digit\<close>
  "startsWithNumber s \<longleftrightarrow>
     (let S = dropWhile isWhiteSpace s;
          S1 = (if startsWith S ''-'' \<or> startsWith S ''+'' then drop 1 S else S)
      in S1 \<noteq> [] \<and> isDigit (hd S1))"

definition rowName :: "string \<Rightarrow> string \<Rightarrow> string" where
  \<comment> \<open>the slice of a row between the columns where \<^verbatim>\<open>Name\<close> and \<^verbatim>\<open>Identifier\<close> start
      in the header line, trimmed; likewise the three slices below\<close>
  "rowName hdr line = trim (substring line (indexOf hdr ''Name'') (indexOf hdr ''Identifier''))"

definition rowIdentifier :: "string \<Rightarrow> string \<Rightarrow> string" where
  "rowIdentifier hdr line =
     trim (substring line (indexOf hdr ''Identifier'') (indexOf hdr ''State''))"

definition rowState :: "string \<Rightarrow> string \<Rightarrow> string" where
  "rowState hdr line = trim (substring line (indexOf hdr ''State'') (indexOf hdr ''Model''))"

definition rowModel :: "string \<Rightarrow> string \<Rightarrow> string" where
  "rowModel hdr line = trim (substringFrom line (indexOf hdr ''Model''))"

definition rowAccepted :: "string \<Rightarrow> string \<Rightarrow> bool" where
  \<comment> \<open>a row that yields a record: not blank, identifier slice longer than 10\<close>
  "rowAccepted hdr line \<longleftrightarrow> trim line \<noteq> [] \<and> length (rowIdentifier hdr line) > 10"

definition rowDevice :: "string \<Rightarrow> string \<Rightarrow> DeviceInfo" where
  "rowDevice hdr line =
     \<lparr>identifier = rowIdentifier hdr line,
      name = (if rowName hdr line = [] then None else Some (rowName hdr line)),
      platform = Some (extractPlatformFromModel (rowModel hdr line)),
      connectionType =
        Some (if includes_str (rowState hdr line) ''paired'' then ''paired'' else ''available'')\<rparr>"

section \<open>Facts about the string operations\<close>

lemma startsWith_iff: "startsWith s t \<longleftrightarrow> (\<exists>q. s = t @ q)"
  unfolding startsWith_def
  by (metis append_eq_conv_conj append_take_drop_id)

lemma indexOfFrom_found:
  "0 \<le> i \<Longrightarrow> indexOfFrom s t i \<noteq> - 1 \<longleftrightarrow> (\<exists>p q. s = p @ t @ q)"
proof (induction s arbitrary: i)
  case Nil
  then show ?case by auto
next
  case (Cons c cs)
  show ?case
  proof (cases "startsWith (c # cs) t")
    case True
    then obtain q where "c # cs = t @ q" by (auto simp: startsWith_iff)
    then have "\<exists>p q. c # cs = p @ t @ q" by (metis append_Nil)
    with True Cons.prems show ?thesis by simp
  next
    case False
    have "(\<exists>p q. c # cs = p @ t @ q) \<longleftrightarrow> (\<exists>p q. cs = p @ t @ q)"
    proof
      assume "\<exists>p q. c # cs = p @ t @ q"
      then obtain p q where pq: "c # cs = p @ t @ q" by blast
      with False have "p \<noteq> []" by (auto simp: startsWith_iff)
      then obtain p' where "p = c # p'" using pq by (cases p) auto
      with pq show "\<exists>p q. cs = p @ t @ q" by auto
    next
      assume "\<exists>p q. cs = p @ t @ q"
      then obtain p q where "cs = p @ t @ q" by blast
      then have "c # cs = (c # p) @ t @ q" by simp
      then show "\<exists>p q. c # cs = p @ t @ q" by blast
    qed
    with False Cons.IH [of "i + 1"] Cons.prems show ?thesis by simp
  qed
qed

text \<open>\<^verbatim>\<open>includes\<close> is containment as a contiguous, case-sensitive substring.\<close>

lemma includes_str_iff: "includes_str s t \<longleftrightarrow> (\<exists>p q. s = p @ t @ q)"
  by (simp add: includes_str_def indexOf_def indexOfFrom_found)

subsection \<open>search\<close>

lemma search_here: "m s = Some r \<Longrightarrow> search m s = Some r"
  by (cases s) simp_all

lemma search_skip:
  "\<forall>i<length pre. m (drop i (pre @ s)) = None \<Longrightarrow> search m (pre @ s) = search m s"
proof (induction pre)
  case Nil
  then show ?case by simp
next
  case (Cons c pre)
  from Cons.prems have "m (drop 0 ((c # pre) @ s)) = None" by blast
  then have here: "m (c # pre @ s) = None" by simp
  have "\<forall>i<length pre. m (drop i (pre @ s)) = None"
  proof (intro allI impI)
    fix i assume "i < length pre"
    then have "Suc i < length (c # pre)" by simp
    with Cons.prems have "m (drop (Suc i) ((c # pre) @ s)) = None" by blast
    then show "m (drop i (pre @ s)) = None" by simp
  qed
  with Cons.IH here show ?case by simp
qed

lemma search_None_iff: "search m s = None \<longleftrightarrow> (\<forall>i\<le>length s. m (drop i s) = None)"
proof (induction s)
  case Nil
  then show ?case by simp
next
  case (Cons c cs)
  have "(\<forall>i\<le>length (c # cs). m (drop i (c # cs)) = None) \<longleftrightarrow>
        m (c # cs) = None \<and> (\<forall>i\<le>length cs. m (drop i cs) = None)"
  proof
    assume a: "\<forall>i\<le>length (c # cs). m (drop i (c # cs)) = None"
    then have "m (drop 0 (c # cs)) = None" by blast
    moreover have "\<forall>i\<le>length cs. m (drop i cs) = None"
    proof (intro allI impI)
      fix i assume "i \<le> length cs"
      then have "Suc i \<le> length (c # cs)" by simp
      with a have "m (drop (Suc i) (c # cs)) = None" by blast
      then show "m (drop i cs) = None" by simp
    qed
    ultimately show "m (c # cs) = None \<and> (\<forall>i\<le>length cs. m (drop i cs) = None)" by simp
  next
    assume a: "m (c # cs) = None \<and> (\<forall>i\<le>length cs. m (drop i cs) = None)"
    show "\<forall>i\<le>length (c # cs). m (drop i (c # cs)) = None"
    proof (intro allI impI)
      fix i assume "i \<le> length (c # cs)"
      then show "m (drop i (c # cs)) = None" using a by (cases i) simp_all
    qed
  qed
  with Cons.IH show ?case by (simp split: option.splits)
qed

lemma search_Some_at: "search m s = Some r \<Longrightarrow> \<exists>i\<le>length s. m (drop i s) = Some r"
proof (induction s)
  case Nil
  then show ?case by simp
next
  case (Cons c cs)
  show ?case
  proof (cases "m (c # cs)")
    case None
    with Cons obtain i where "i \<le> length cs" "m (drop i cs) = Some r" by auto
    then have "Suc i \<le> length (c # cs) \<and> m (drop (Suc i) (c # cs)) = Some r" by simp
    then show ?thesis by blast
  next
    case (Some a)
    with Cons.prems have "m (drop 0 (c # cs)) = Some r" by simp
    then show ?thesis by blast
  qed
qed

subsection \<open>trim\<close>

lemma trim_id:
  assumes "s \<noteq> []" "\<not> isWhiteSpace (hd s)" "\<not> isWhiteSpace (last s)"
  shows "trim s = s"
proof -
  have "dropWhile isWhiteSpace s = s"
    using assms(2) by (simp add: dropWhile_eq_self_iff)
  moreover have "dropWhile isWhiteSpace (rev s) = rev s"
    using assms(1,3) by (simp add: dropWhile_eq_self_iff hd_rev)
  ultimately show ?thesis by (simp add: trim_def)
qed

lemma trim_last: "trim s \<noteq> [] \<Longrightarrow> \<not> isWhiteSpace (last (trim s))"
  unfolding trim_def by (simp add: last_rev hd_dropWhile)

lemma dropWhile_trim: "dropWhile isWhiteSpace (trim s) = trim s"
proof -
  let ?d = "dropWhile isWhiteSpace s"
  have split: "?d = trim s @ rev (takeWhile isWhiteSpace (rev ?d))"
    unfolding trim_def
    by (metis rev_append rev_rev_ident takeWhile_dropWhile_id)
  show ?thesis
  proof (cases "trim s = []")
    case True
    then show ?thesis by simp
  next
    case False
    then have "?d \<noteq> []" using split by (metis Nil_is_append_conv)
    then have "\<not> isWhiteSpace (hd ?d)" by (rule hd_dropWhile)
    moreover have "hd ?d = hd (trim s)" using split False by (metis hd_append2)
    ultimately show ?thesis by (simp add: dropWhile_eq_self_iff)
  qed
qed

lemma trim_hd: "trim s \<noteq> [] \<Longrightarrow> \<not> isWhiteSpace (hd (trim s))"
  using dropWhile_trim [of s] by (metis hd_dropWhile)

lemma trim_trim: "trim (trim s) = trim s"
  by (cases "trim s = []") (simp_all add: trim_def [of "[]"] trim_id trim_hd trim_last)

subsection \<open>splitOn\<close>

lemma splitOn_no_sep: "sep \<notin> set l \<Longrightarrow> splitOn sep l = [l]"
  by (induction l) auto

lemma splitOn_append:
  "sep \<notin> set l \<Longrightarrow> splitOn sep (l @ sep # rest) = l # splitOn sep rest"
  by (induction l) auto

subsection \<open>canonicalize\<close>

lemma canonicalize_colon: "canonicalize c = CHR '':'' \<longleftrightarrow> c = CHR '':''"
  by (auto simp: canonicalize_def split: if_splits)

lemma startsWithCI_append:
  "map canonicalize lab = map canonicalize lit \<Longrightarrow> startsWithCI (lab @ rest) lit"
proof -
  assume a: "map canonicalize lab = map canonicalize lit"
  then have "length lab = length lit" by (metis length_map)
  with a show ?thesis by (simp add: startsWithCI_def)
qed

lemma startsWithCI_nth:
  assumes "startsWithCI s lit" "k < length lit"
  shows "k < length s \<and> canonicalize (s ! k) = canonicalize (lit ! k)"
proof -
  from assms(1) have eq: "map canonicalize (take (length lit) s) = map canonicalize lit"
    by (simp add: startsWithCI_def)
  then have "length (take (length lit) s) = length lit" by (metis length_map)
  then have len: "length lit \<le> length s" by simp
  from eq have "map canonicalize (take (length lit) s) ! k = map canonicalize lit ! k" by simp
  with assms(2) len show ?thesis by simp
qed

lemma foldl_invariant:
  "P s \<Longrightarrow> (\<And>s x. P s \<Longrightarrow> P (f s x)) \<Longrightarrow> P (foldl f s xs)"
  by (induction xs arbitrary: s) auto

lemma takeWhile_upto:
  "\<forall>x\<in>set xs. P x \<Longrightarrow> rest = [] \<or> \<not> P (hd rest) \<Longrightarrow> takeWhile P (xs @ rest) = xs"
  by (cases rest) (simp_all add: takeWhile_tail)

lemma dropWhile_upto:
  "\<forall>x\<in>set xs. P x \<Longrightarrow> rest = [] \<or> \<not> P (hd rest) \<Longrightarrow> dropWhile P (xs @ rest) = rest"
  by (cases rest) (simp_all add: dropWhile_append3)

lemma all_less_list_all: "(\<forall>i<n. P i) \<longleftrightarrow> list_all P [0 ..< n]"
  by (auto simp: list_all_iff)

lemma hex_not_whitespace: "isHexOrHyphen c \<Longrightarrow> \<not> isWhiteSpace c"
  by (auto simp: isHexOrHyphen_def isWhiteSpace_def canonicalize_def)

lemma lineTerminator_whitespace: "isLineTerminator c \<Longrightarrow> isWhiteSpace c"
  by (auto simp: isLineTerminator_def isWhiteSpace_def)

lemma search_suffix: "m s = Some r \<Longrightarrow> \<exists>r'. search m (pre @ s) = Some r'"
proof (induction pre)
  case Nil
  then show ?case by (simp add: search_here)
next
  case (Cons c pre)
  then show ?case by (cases "m (c # pre @ s)") auto
qed

lemma label_length:
  "map canonicalize lab = map canonicalize lit \<Longrightarrow> length lab = length lit"
  by (metis length_map)

lemma identifierAt_label:
  assumes "map canonicalize lab = map canonicalize ''Identifier:''"
  shows "identifierAt (lab @ rest) =
     (let run = takeWhile isHexOrHyphen (dropWhile isWhiteSpace rest)
      in if run = [] then None else Some run)"
proof -
  have "length lab = length ''Identifier:''" using assms by (rule label_length)
  then show ?thesis
    using startsWithCI_append [OF assms, of rest] by (simp add: identifierAt_def)
qed

lemma identifierAt_run:
  assumes "map canonicalize lab = map canonicalize ''Identifier:''"
    and "\<forall>c\<in>set ws. isWhiteSpace c" and "run \<noteq> []" and "\<forall>c\<in>set run. isHexOrHyphen c"
    and "post = [] \<or> \<not> isHexOrHyphen (hd post)"
  shows "identifierAt (lab @ ws @ run @ post) = Some run"
proof -
  have "\<not> isWhiteSpace (hd (run @ post))"
    using assms(3,4) by (cases run) (simp_all add: hex_not_whitespace)
  then have "dropWhile isWhiteSpace (ws @ run @ post) = run @ post"
    using assms(2) by (intro dropWhile_upto) simp_all
  moreover have "takeWhile isHexOrHyphen (run @ post) = run"
    using assms(4,5) by (rule takeWhile_upto)
  ultimately show ?thesis
    using assms(3) by (simp add: identifierAt_label [OF assms(1)])
qed

lemma fieldAt_label:
  assumes "map canonicalize lab = map canonicalize lit"
  shows "fieldAt lit (lab @ rest) = restOfLine rest"
proof -
  have "length lab = length lit" using assms by (rule label_length)
  then show ?thesis
    using startsWithCI_append [OF assms, of rest] by (simp add: fieldAt_def)
qed

lemma dropWhile_trimmed:
  assumes "rest \<noteq> []" "\<not> isWhiteSpace (last rest)"
  shows "dropWhile isWhiteSpace rest = trim rest" "trim rest \<noteq> []"
proof -
  let ?d = "dropWhile isWhiteSpace rest"
  have "last rest \<in> set rest" using assms(1) by simp
  with assms(2) have ne: "?d \<noteq> []" by auto
  have "rest = takeWhile isWhiteSpace rest @ ?d" by simp
  with ne have "last rest = last ?d" by (metis last_appendR)
  with assms(2) ne have "dropWhile isWhiteSpace (rev ?d) = rev ?d"
    by (simp add: dropWhile_eq_self_iff hd_rev)
  then show "?d = trim rest" by (simp add: trim_def)
  with ne show "trim rest \<noteq> []" by simp
qed

lemma restOfLine_trimmed:
  assumes "rest \<noteq> []" "\<not> isWhiteSpace (last rest)"
  shows "restOfLine rest = Some (takeWhile (\<lambda>c. \<not> isLineTerminator c) (trim rest))"
  using dropWhile_trimmed [OF assms] by (simp add: restOfLine_def)

lemma suffix_of_trim:
  assumes "trim line = pre @ lab @ rest" "rest \<noteq> []"
  shows "\<not> isWhiteSpace (last rest)"
proof -
  from assms have "trim line \<noteq> []" by simp
  then have "\<not> isWhiteSpace (last (trim line))" by (rule trim_last)
  with assms show ?thesis by simp
qed

lemma field_first_match:
  assumes eq: "trim line = pre @ lab @ rest"
    and lab: "map canonicalize lab = map canonicalize lit"
    and rest: "rest \<noteq> []"
    and first: "\<forall>i<length pre. fieldAt lit (drop i (trim line)) = None"
  shows "search (fieldAt lit) (trim line) =
           Some (takeWhile (\<lambda>c. \<not> isLineTerminator c) (trim rest))"
proof -
  have "fieldAt lit (lab @ rest) = Some (takeWhile (\<lambda>c. \<not> isLineTerminator c) (trim rest))"
    using restOfLine_trimmed [OF rest suffix_of_trim [OF eq rest]]
    by (simp add: fieldAt_label [OF lab])
  then have "search (fieldAt lit) (lab @ rest) =
      Some (takeWhile (\<lambda>c. \<not> isLineTerminator c) (trim rest))"
    by (rule search_here)
  moreover from first have "\<forall>i<length pre. fieldAt lit (drop i (pre @ lab @ rest)) = None"
    by (simp only: eq)
  ultimately show ?thesis
    using search_skip [of pre "fieldAt lit" "lab @ rest"] by (simp only: eq)
qed

lemma identifier_first_match:
  assumes eq: "trim line = pre @ lab @ rest"
    and lab: "map canonicalize lab = map canonicalize ''Identifier:''"
    and run: "takeWhile isHexOrHyphen (trim rest) \<noteq> []"
    and first: "\<forall>i<length pre. identifierAt (drop i (trim line)) = None"
  shows "identifierRegex (trim line) = Some (takeWhile isHexOrHyphen (trim rest))"
proof -
  from run have rest: "rest \<noteq> []" by (auto simp: trim_def)
  have "dropWhile isWhiteSpace rest = trim rest"
    by (rule dropWhile_trimmed [OF rest suffix_of_trim [OF eq rest]])
  then have "identifierAt (lab @ rest) = Some (takeWhile isHexOrHyphen (trim rest))"
    using run by (simp add: identifierAt_label [OF lab])
  then have "search identifierAt (lab @ rest) = Some (takeWhile isHexOrHyphen (trim rest))"
    by (rule search_here)
  moreover from first have "\<forall>i<length pre. identifierAt (drop i (pre @ lab @ rest)) = None"
    by (simp only: eq)
  ultimately show ?thesis
    using search_skip [of pre identifierAt "lab @ rest"]
    by (simp only: eq identifierRegex_def)
qed

lemma legacyLine_identifier:
  "identifierRegex (trim line) = Some i \<Longrightarrow>
   legacyLine (devices, cur) line =
     (pushCurrent devices cur, emptyDevice\<lparr>cur_identifier := Some i\<rparr>)"
  by (simp add: legacyLine_def)

lemma legacyLine_name:
  "identifierRegex (trim line) = None \<Longrightarrow> isOpen cur \<Longrightarrow> nameRegex (trim line) = Some v \<Longrightarrow>
   legacyLine (devices, cur) line = (devices, cur\<lparr>cur_name := Some v\<rparr>)"
  by (simp add: legacyLine_def)

lemma legacyLine_platform:
  "identifierRegex (trim line) = None \<Longrightarrow> isOpen cur \<Longrightarrow> nameRegex (trim line) = None \<Longrightarrow>
   platformRegex (trim line) = Some v \<Longrightarrow>
   legacyLine (devices, cur) line = (devices, cur\<lparr>cur_platform := Some v\<rparr>)"
  by (simp add: legacyLine_def)

lemma legacyLine_connection:
  "identifierRegex (trim line) = None \<Longrightarrow> isOpen cur \<Longrightarrow> nameRegex (trim line) = None \<Longrightarrow>
   platformRegex (trim line) = None \<Longrightarrow> connectionRegex (trim line) = Some v \<Longrightarrow>
   legacyLine (devices, cur) line = (devices, cur\<lparr>cur_connectionType := Some v\<rparr>)"
  by (simp add: legacyLine_def)

lemma canonicalize_colon_self: "canonicalize (CHR '':'') = CHR '':''"
  by (simp add: canonicalize_def)

lemma no_label_from:
  assumes "CHR '':'' \<notin> set Y" "k < length lit" "lit ! k = CHR '':''" "length p \<le> i + k"
  shows "\<not> startsWithCI (drop i (p @ Y)) lit"
proof
  assume "startsWithCI (drop i (p @ Y)) lit"
  from startsWithCI_nth [OF this assms(2)]
  have len: "k < length (drop i (p @ Y))"
    and "canonicalize (drop i (p @ Y) ! k) = canonicalize (lit ! k)"
    by simp_all
  then have "drop i (p @ Y) ! k = CHR '':''"
    by (simp only: assms(3) canonicalize_colon_self canonicalize_colon)
  moreover from len have lt: "i + k < length (p @ Y)" by simp
  moreover have "drop i (p @ Y) ! k = (p @ Y) ! (i + k)"
    by (rule nth_drop) (use lt in simp)
  ultimately have "(p @ Y) ! (i + k) = CHR '':''" by (simp only:)
  moreover from assms(4) lt have "(p @ Y) ! (i + k) \<in> set Y"
    by (simp add: nth_append)
  ultimately show False using assms(1) by simp
qed

lemma identifierRegex_no_colon:
  assumes "CHR '':'' \<notin> set Y" "length p \<le> 10"
  shows "identifierRegex (p @ Y) = None"
proof -
  have "identifierAt (drop i (p @ Y)) = None" for i
    using no_label_from [OF assms(1), of 10 "''Identifier:''" p i] assms(2)
    by (simp add: identifierAt_def)
  then show ?thesis by (simp add: identifierRegex_def search_None_iff)
qed

lemma nameRegex_platform_line:
  assumes "CHR '':'' \<notin> set Z"
  shows "nameRegex (''Platform: '' @ Z) = None"
proof -
  have f: "fieldAt ''Name:'' (drop i (''Platform: '' @ Z)) = None" for i
  proof (cases "i < 6")
    case True
    then consider "i = 0" | "i = 1" | "i = 2" | "i = 3" | "i = 4" | "i = 5" by linarith
    then show ?thesis
      by cases (simp_all add: fieldAt_def startsWithCI_def canonicalize_def)
  next
    case False
    then have "length ''Platform: '' \<le> i + 4" by simp
    from no_label_from [OF assms _ _ this, of "''Name:''"]
    show ?thesis by (simp add: fieldAt_def)
  qed
  show ?thesis
    unfolding nameRegex_def search_None_iff by (intro allI impI) (rule f)
qed

lemma hexRun_facts:
  assumes "hexRun X"
  shows "X \<noteq> []" "\<forall>c\<in>set X. isHexOrHyphen c" "\<not> isWhiteSpace (last X)" "CHR 0x0A \<notin> set X"
proof -
  from assms show ne: "X \<noteq> []" and all: "\<forall>c\<in>set X. isHexOrHyphen c"
    by (simp_all add: hexRun_def list_all_iff)
  from ne all have "isHexOrHyphen (last X)" by simp
  then show "\<not> isWhiteSpace (last X)" by (rule hex_not_whitespace)
  show "CHR 0x0A \<notin> set X"
  proof
    assume "CHR 0x0A \<in> set X"
    with all have "isHexOrHyphen (CHR 0x0A)" by blast
    then show False by (simp add: isHexOrHyphen_def canonicalize_def)
  qed
qed

lemma plainValue_facts:
  assumes "plainValue v"
  shows "v \<noteq> []" "\<not> isWhiteSpace (hd v)" "\<not> isWhiteSpace (last v)" "CHR '':'' \<notin> set v"
    "\<forall>c\<in>set v. \<not> isLineTerminator c" "CHR 0x0A \<notin> set v"
proof -
  from assms show "v \<noteq> []" "\<not> isWhiteSpace (hd v)" "\<not> isWhiteSpace (last v)"
    "CHR '':'' \<notin> set v" and lt: "\<forall>c\<in>set v. \<not> isLineTerminator c"
    by (auto simp: plainValue_def list_all_iff)
  from lt show "CHR 0x0A \<notin> set v" by (auto simp: isLineTerminator_def)
qed

lemma identifier_line:
  assumes "hexRun X"
  shows "legacyLine (devices, cur) (''Identifier: '' @ X) =
           (pushCurrent devices cur, emptyDevice\<lparr>cur_identifier := Some X\<rparr>)"
proof -
  note x = hexRun_facts [OF assms]
  have t: "trim (''Identifier: '' @ X) = ''Identifier: '' @ X"
    using x(1,3) by (intro trim_id) (simp_all add: isWhiteSpace_def)
  have "identifierAt (''Identifier:'' @ '' '' @ X @ []) = Some X"
    by (rule identifierAt_run) (simp_all add: x isWhiteSpace_def)
  then have "search identifierAt (''Identifier:'' @ '' '' @ X @ []) = Some X"
    by (rule search_here)
  moreover have "''Identifier:'' @ '' '' @ X @ [] = ''Identifier: '' @ X" by simp
  ultimately have "search identifierAt (''Identifier: '' @ X) = Some X" by (simp only:)
  then have "identifierRegex (trim (''Identifier: '' @ X)) = Some X"
    unfolding t identifierRegex_def .
  then show ?thesis by (rule legacyLine_identifier)
qed

lemma restOfLine_plain:
  assumes "plainValue v"
  shows "restOfLine ('' '' @ v) = Some v"
proof -
  note v = plainValue_facts [OF assms]
  have "dropWhile isWhiteSpace ('' '' @ v) = v"
    using v(2) by (simp add: isWhiteSpace_def dropWhile_eq_self_iff)
  moreover have "takeWhile (\<lambda>c. \<not> isLineTerminator c) v = v"
    using v(5) by (simp add: takeWhile_eq_all_conv)
  ultimately show ?thesis using v(1) by (simp add: restOfLine_def)
qed

lemma name_line:
  assumes "plainValue Y" "isOpen cur"
  shows "legacyLine (devices, cur) (''Name: '' @ Y) = (devices, cur\<lparr>cur_name := Some Y\<rparr>)"
proof -
  note y = plainValue_facts [OF assms(1)]
  have t: "trim (''Name: '' @ Y) = ''Name: '' @ Y"
    using y(1,3) by (intro trim_id) (simp_all add: isWhiteSpace_def)
  have i: "identifierRegex (''Name: '' @ Y) = None"
    by (rule identifierRegex_no_colon [OF y(4)]) simp
  have "fieldAt ''Name:'' (''Name:'' @ '' '' @ Y) = Some Y"
    by (simp only: fieldAt_label [OF refl] restOfLine_plain [OF assms(1)])
  then have "search (fieldAt ''Name:'') (''Name:'' @ '' '' @ Y) = Some Y"
    by (rule search_here)
  moreover have "''Name:'' @ '' '' @ Y = ''Name: '' @ Y" by simp
  ultimately have n: "nameRegex (''Name: '' @ Y) = Some Y"
    unfolding nameRegex_def by (simp only:)
  show ?thesis
    by (rule legacyLine_name) (simp_all only: t i n assms(2))
qed

lemma platform_line:
  assumes "plainValue Z" "isOpen cur"
  shows "legacyLine (devices, cur) (''Platform: '' @ Z) = (devices, cur\<lparr>cur_platform := Some Z\<rparr>)"
proof -
  note z = plainValue_facts [OF assms(1)]
  have t: "trim (''Platform: '' @ Z) = ''Platform: '' @ Z"
    using z(1,3) by (intro trim_id) (simp_all add: isWhiteSpace_def)
  have i: "identifierRegex (''Platform: '' @ Z) = None"
    by (rule identifierRegex_no_colon [OF z(4)]) simp
  have n: "nameRegex (''Platform: '' @ Z) = None"
    by (rule nameRegex_platform_line [OF z(4)])
  have "fieldAt ''Platform:'' (''Platform:'' @ '' '' @ Z) = Some Z"
    by (simp only: fieldAt_label [OF refl] restOfLine_plain [OF assms(1)])
  then have "search (fieldAt ''Platform:'') (''Platform:'' @ '' '' @ Z) = Some Z"
    by (rule search_here)
  moreover have "''Platform:'' @ '' '' @ Z = ''Platform: '' @ Z" by simp
  ultimately have p: "platformRegex (''Platform: '' @ Z) = Some Z"
    unfolding platformRegex_def by (simp only:)
  show ?thesis
    by (rule legacyLine_platform) (simp_all only: t i n p assms(2))
qed

lemma isRadixDigit_10: "isRadixDigit 10 c \<longleftrightarrow> isDigit c"
  by (simp add: isRadixDigit_def digitValue_def isDigit_def)

lemma digit_not_whitespace: "isDigit c \<Longrightarrow> \<not> isWhiteSpace c"
  by (auto simp: isDigit_def isWhiteSpace_def)

lemma digitChar_digit: "d < 10 \<Longrightarrow> isDigit (digitChar d)"
  unfolding isDigit_def digitChar_def by (rule nth_mem) simp

lemma digitChar_values: "\<forall>d<10. digitValue (digitChar d) = Some d"
  unfolding all_less_list_all by code_simp

lemma digitChar_value: "d < 10 \<Longrightarrow> digitValue (digitChar d) = Some d"
  using digitChar_values by blast


lemma decimal_unfold:
  "decimal n = (if n < 10 then [digitChar n] else decimal (n div 10) @ [digitChar (n mod 10)])"
  by (rule decimal.simps)

lemma decimal_nonempty: "decimal n \<noteq> []"
  by (subst decimal_unfold) simp

lemma decimal_digits: "list_all isDigit (decimal n)"
proof (induction n rule: decimal.induct)
  case (1 n)
  show ?case
  proof (cases "n < 10")
    case True
    then show ?thesis by (subst decimal_unfold) (simp add: digitChar_digit)
  next
    case False
    with 1 have "list_all isDigit (decimal (n div 10))" by blast
    with False show ?thesis by (subst decimal_unfold) (simp add: digitChar_digit)
  qed
qed

lemma digitsValue_snoc:
  "digitsValue R (Z @ [c]) =
     digitsValue R Z * R + (case digitValue c of None \<Rightarrow> 0 | Some d \<Rightarrow> d)"
  by (simp add: digitsValue_def)

lemma digitsValue_decimal: "digitsValue 10 (decimal n) = n"
proof (induction n rule: decimal.induct)
  case (1 n)
  show ?case
  proof (cases "n < 10")
    case True
    then have "decimal n = [] @ [digitChar n]" by (subst decimal_unfold) simp
    then have "digitsValue 10 (decimal n) =
        digitsValue 10 [] * 10 + (case digitValue (digitChar n) of None \<Rightarrow> 0 | Some d \<Rightarrow> d)"
      by (simp only: digitsValue_snoc)
    with True show ?thesis by (simp add: digitChar_value digitsValue_def)
  next
    case False
    then have "decimal n = decimal (n div 10) @ [digitChar (n mod 10)]"
      by (subst decimal_unfold) simp
    then have "digitsValue 10 (decimal n) =
        digitsValue 10 (decimal (n div 10)) * 10 +
        (case digitValue (digitChar (n mod 10)) of None \<Rightarrow> 0 | Some d \<Rightarrow> d)"
      by (simp only: digitsValue_snoc)
    moreover from 1 False have "digitsValue 10 (decimal (n div 10)) = n div 10" by blast
    ultimately show ?thesis by (simp add: digitChar_value)
  qed
qed

lemma startsWith_hd: "startsWith s (c # t) \<Longrightarrow> s \<noteq> [] \<and> hd s = c"
  by (auto simp: startsWith_iff)

lemma startsWith_second: "startsWith s (c # d # t) \<Longrightarrow> 1 < length s \<and> s ! 1 = d"
  by (auto simp: startsWith_iff)

lemma not_digit_chars:
  "\<not> isDigit (CHR ''-'')" "\<not> isDigit (CHR ''+'')" "\<not> isDigit (CHR ''x'')" "\<not> isDigit (CHR ''X'')"
  by (simp_all add: isDigit_def)

lemma all_digits_facts:
  assumes "s \<noteq> []" "list_all isDigit s"
  shows "isDigit (hd s)" "isDigit (last s)" "\<not> startsWith s ''-''" "\<not> startsWith s ''+''"
    "\<not> startsWith s ''0x''" "\<not> startsWith s ''0X''"
proof -
  from assms show h: "isDigit (hd s)" and "isDigit (last s)"
    by (simp_all add: list_all_iff)
  from h show "\<not> startsWith s ''-''" "\<not> startsWith s ''+''"
    using not_digit_chars by (metis startsWith_hd)+
  have "isDigit (s ! 1)" if "1 < length s"
    using that assms(2) by (simp add: list_all_iff)
  then show "\<not> startsWith s ''0x''" "\<not> startsWith s ''0X''"
    using not_digit_chars by (metis startsWith_second)+
qed

lemma parseInt_digits:
  assumes "s \<noteq> []" "list_all isDigit s"
  shows "parseInt s = Some (int (digitsValue 10 s))"
proof -
  note f = all_digits_facts [OF assms]
  have d: "dropWhile isWhiteSpace s = s"
    using f(1) by (simp add: dropWhile_eq_self_iff digit_not_whitespace)
  have t: "takeWhile (isRadixDigit 10) s = s"
    using assms(2) by (simp add: takeWhile_eq_all_conv isRadixDigit_10 list_all_iff)
  show ?thesis
    unfolding parseInt_def Let_def d
    apply (simp only: f if_False simp_thms t assms(1))
    apply simp
    done
qed

lemma trim_decimal: "trim (decimal n) = decimal n"
proof -
  note f = all_digits_facts [OF decimal_nonempty decimal_digits, of n]
  show ?thesis
    by (rule trim_id [OF decimal_nonempty]) (simp_all add: f digit_not_whitespace)
qed

lemma parseInt_decimal: "parseInt (trim (decimal n)) = Some (int n)"
  by (simp only: trim_decimal parseInt_digits [OF decimal_nonempty decimal_digits]
      digitsValue_decimal)

lemma parseInt_no_number:
  assumes "\<not> startsWithNumber s"
  shows "parseInt s = None"
proof -
  define S where "S = dropWhile isWhiteSpace s"
  define S1 where "S1 = (if startsWith S ''-'' \<or> startsWith S ''+'' then drop 1 S else S)"
  from assms have "\<not> (S1 \<noteq> [] \<and> isDigit (hd S1))"
    unfolding startsWithNumber_def Let_def S1_def S_def .
  then have s1: "S1 = [] \<or> \<not> isDigit (hd S1)" by blast
  have zero: "isDigit (CHR ''0'')" by (simp add: isDigit_def)
  have nohex: "\<not> startsWith S1 (CHR ''0'' # t)" for t
  proof
    assume "startsWith S1 (CHR ''0'' # t)"
    then have "S1 \<noteq> [] \<and> hd S1 = CHR ''0''" by (rule startsWith_hd)
    with s1 zero show False by auto
  qed
  from s1 have z: "takeWhile (isRadixDigit 10) S1 = []"
    by (cases S1) (simp_all add: isRadixDigit_10)
  show ?thesis
    unfolding parseInt_def Let_def S_def [symmetric] S1_def [symmetric]
    by (simp only: nohex z if_False if_True simp_thms)
qed

section \<open>Platform derivation\<close>

text \<open>
  Claim C6. For every model string the platform is decided by containment of a
  keyword as a case-sensitive substring, tried in the order iPhone, iPad, Watch,
  Apple TV, Mac, the first keyword contained deciding; with none contained the
  platform is Unknown.
\<close>

theorem extractPlatformFromModel_keywords:
  "extractPlatformFromModel m =
     (if (\<exists>p q. m = p @ ''iPhone'' @ q) then ''iOS''
      else if (\<exists>p q. m = p @ ''iPad'' @ q) then ''iPadOS''
      else if (\<exists>p q. m = p @ ''Watch'' @ q) then ''watchOS''
      else if (\<exists>p q. m = p @ ''Apple TV'' @ q) then ''tvOS''
      else if (\<exists>p q. m = p @ ''Mac'' @ q) then ''macOS''
      else ''Unknown'')"
  by (simp only: extractPlatformFromModel_def includes_str_iff)

section \<open>Launching\<close>

text \<open>
  Claim C8. For every shell, device identifier and application record: when
  \<open>fullPath\<close> is absent (or the empty string, which \<^verbatim>\<open>!app.fullPath\<close> treats alike)
  the launch fails with the missing-path error and has run no command, whatever
  the other fields hold; when \<open>fullPath\<close> is a non-empty path the outcome is not the
  missing-path error and exactly the launch command has been run.
\<close>

theorem launch_requires_fullPath:
  "(fullPath app = None \<or> fullPath app = Some [] \<longrightarrow>
      launchAppWithMetalHUD exec dev app = (Inl MissingFullPath, [])) \<and>
   (\<forall>path. fullPath app = Some path \<and> path \<noteq> [] \<longrightarrow>
      fst (launchAppWithMetalHUD exec dev app) \<noteq> Inl MissingFullPath \<and>
      snd (launchAppWithMetalHUD exec dev app) = [launchCommand dev path])"
  by (auto simp: launchAppWithMetalHUD_def Let_def split: sum.splits)

theorem launch_requires_fullPath_witness:
  "launchAppWithMetalHUD (\<lambda>c. Inr []) ''D1''
     \<lparr>bundleId = ''com.example.app'', displayName = Some ''MyGame.app'',
      pid = Some ''12'', fullPath = None\<rparr> = (Inl MissingFullPath, []) \<and>
   launchAppWithMetalHUD (\<lambda>c. Inl ''not found'') ''D1''
     \<lparr>bundleId = ''com.example.app'', displayName = None,
      pid = None, fullPath = Some ''/path/App.app''\<rparr> =
     (Inl (CommandFailed ''not found''), [launchCommand ''D1'' ''/path/App.app''])"
  using
    launch_requires_fullPath [of "\<lparr>bundleId = ''com.example.app'',
      displayName = Some ''MyGame.app'', pid = Some ''12'', fullPath = None\<rparr>"
      "\<lambda>c. Inr []" "''D1''"]
    launch_requires_fullPath [of "\<lparr>bundleId = ''com.example.app'', displayName = None,
      pid = None, fullPath = Some ''/path/App.app''\<rparr>" "\<lambda>c. Inl ''not found''" "''D1''"]
  by (simp add: launchAppWithMetalHUD_def)

section \<open>Process discovery\<close>

text \<open>
  Claim C4. When the process-listing command fails, \<^verbatim>\<open>getApplications\<close> returns the
  empty list as a success if the message of the failure contains
  \<^verbatim>\<open>No matching processes\<close>, and otherwise fails with that same error. The
  listing command is the only command run.
\<close>

theorem getApplications_no_matching_processes:
  "exec (processesCommand dev) = Inl msg \<Longrightarrow>
     getApplications exec dev =
       (if (\<exists>p q. msg = p @ ''No matching processes'' @ q) then Inr []
        else Inl (CommandFailed msg), [processesCommand dev])"
  by (simp add: getApplications_def Let_def includes_str_iff)

theorem getApplications_no_matching_processes_witness:
  "getApplications (\<lambda>c. Inl ''ERROR: No matching processes found.'') ''D1'' =
     (Inr [], [processesCommand ''D1'']) \<and>
   getApplications (\<lambda>c. Inl ''Command failed: xcrun'') ''D1'' =
     (Inl (CommandFailed ''Command failed: xcrun''), [processesCommand ''D1''])"
  using
    getApplications_no_matching_processes
      [of "\<lambda>c. Inl ''ERROR: No matching processes found.''" "''D1''"
          "''ERROR: No matching processes found.''"]
    getApplications_no_matching_processes
      [of "\<lambda>c. Inl ''Command failed: xcrun''" "''D1''" "''Command failed: xcrun''"]
  by (simp add: getApplications_def includes_str_def indexOf_def startsWith_def)

section \<open>The identifier of a device record\<close>

lemma parseRow_identifiers:
  "\<forall>d\<in>set devices. identifier d \<noteq> [] \<Longrightarrow>
   \<forall>d\<in>set (parseRow h devices line). identifier d \<noteq> []"
  by (auto simp: parseRow_def Let_def)

lemma pushCurrent_identifiers:
  "\<forall>d\<in>set devices. identifier d \<noteq> [] \<Longrightarrow>
   \<forall>d\<in>set (pushCurrent devices cur). identifier d \<noteq> []"
  by (auto simp: pushCurrent_def split: option.splits)

lemma legacyLine_identifiers:
  "\<forall>d\<in>set (fst st). identifier d \<noteq> [] \<Longrightarrow>
   \<forall>d\<in>set (fst (legacyLine st line)). identifier d \<noteq> []"
  using pushCurrent_identifiers [of "fst st" "snd st"]
  by (simp add: legacyLine_def Let_def split: option.splits)

lemma legacy_identifiers:
  "\<forall>d\<in>set (parseDeviceOutputLegacy output). identifier d \<noteq> []"
proof -
  have "\<forall>d\<in>set (fst (foldl legacyLine ([], emptyDevice) (lines_of output))). identifier d \<noteq> []"
    by (rule foldl_invariant) (simp_all add: legacyLine_identifiers)
  then show ?thesis
    by (simp add: parseDeviceOutputLegacy_def Let_def pushCurrent_identifiers)
qed

lemma tabular_identifiers:
  "\<forall>d\<in>set (foldl (parseRow h) [] rows). identifier d \<noteq> []"
  by (rule foldl_invariant) (simp_all add: parseRow_identifiers)

lemma tabular_example:
  "parseDeviceOutput
     (''Name      Identifier             State    Model'' @ [CHR 0x0A] @
      ''--------  ---------------------  -------  -------------'' @ [CHR 0x0A] @
      ''My Phone  00008030-001A2B3C4D5E  paired   iPhone 15 Pro'') =
   [\<lparr>identifier = ''00008030-001A2B3C4D5E'', name = Some ''My Phone'',
     platform = Some ''iOS'', connectionType = Some ''paired''\<rparr>]"
  by code_simp

lemma legacy_example:
  "parseDeviceOutputLegacy
     (''Identifier: 00008030-001A'' @ [CHR 0x0A] @ ''Name: My Phone'' @ [CHR 0x0A] @
      ''Platform: iOS'' @ [CHR 0x0A] @ ''Identifier: 00008101-77FF'' @ [CHR 0x0A] @
      ''Name: Her Pad'' @ [CHR 0x0A] @ ''Platform: iPadOS'') =
   [\<lparr>identifier = ''00008030-001A'', name = Some ''My Phone'',
     platform = Some ''iOS'', connectionType = None\<rparr>,
    \<lparr>identifier = ''00008101-77FF'', name = Some ''Her Pad'',
     platform = Some ''iPadOS'', connectionType = None\<rparr>]"
  by code_simp

text \<open>
  Claim C9. Every device record that device parsing returns has a non-empty
  identifier, for every text: through \<^const>\<open>parseDeviceOutput\<close> (the tabular path,
  or the legacy path when no header line is found) and through
  \<^const>\<open>parseDeviceOutputLegacy\<close> itself.
\<close>

theorem device_identifier_nonempty:
  "(\<forall>d\<in>set (parseDeviceOutput output). identifier d \<noteq> []) \<and>
   (\<forall>d\<in>set (parseDeviceOutputLegacy output). identifier d \<noteq> [])"
  using legacy_identifiers [of "output"]
  by (simp add: parseDeviceOutput_def Let_def tabular_identifiers split: option.splits)

theorem device_identifier_nonempty_witness:
  "parseDeviceOutput
     (''Name      Identifier             State    Model'' @ [CHR 0x0A] @
      ''--------  ---------------------  -------  -------------'' @ [CHR 0x0A] @
      ''My Phone  00008030-001A2B3C4D5E  paired   iPhone 15 Pro'') \<noteq> [] \<and>
   identifier (hd (parseDeviceOutput
     (''Name      Identifier             State    Model'' @ [CHR 0x0A] @
      ''--------  ---------------------  -------  -------------'' @ [CHR 0x0A] @
      ''My Phone  00008030-001A2B3C4D5E  paired   iPhone 15 Pro''))) \<noteq> [] \<and>
   length (parseDeviceOutputLegacy
     (''Identifier: 00008030-001A'' @ [CHR 0x0A] @ ''Name: My Phone'' @ [CHR 0x0A] @
      ''Platform: iOS'' @ [CHR 0x0A] @ ''Identifier: 00008101-77FF'' @ [CHR 0x0A] @
      ''Name: Her Pad'' @ [CHR 0x0A] @ ''Platform: iPadOS'')) = 2 \<and>
   identifier (hd (parseDeviceOutputLegacy
     (''Identifier: 00008030-001A'' @ [CHR 0x0A] @ ''Name: My Phone'' @ [CHR 0x0A] @
      ''Platform: iOS'' @ [CHR 0x0A] @ ''Identifier: 00008101-77FF'' @ [CHR 0x0A] @
      ''Name: Her Pad'' @ [CHR 0x0A] @ ''Platform: iPadOS''))) \<noteq> []"
  using
    device_identifier_nonempty [of
     "''Name      Identifier             State    Model'' @ [CHR 0x0A] @
      ''--------  ---------------------  -------  -------------'' @ [CHR 0x0A] @
      ''My Phone  00008030-001A2B3C4D5E  paired   iPhone 15 Pro''"]
    device_identifier_nonempty [of
     "''Identifier: 00008030-001A'' @ [CHR 0x0A] @ ''Name: My Phone'' @ [CHR 0x0A] @
      ''Platform: iOS'' @ [CHR 0x0A] @ ''Identifier: 00008101-77FF'' @ [CHR 0x0A] @
      ''Name: Her Pad'' @ [CHR 0x0A] @ ''Platform: iPadOS''"]
  unfolding tabular_example legacy_example
  by simp

section \<open>Application parsing\<close>

lemma find_bundleId:
  "find (\<lambda>app. bundleId app = b) apps = None \<longleftrightarrow> b \<notin> bundleId ` set apps"
  by (auto simp: find_None_iff)

lemma parseApplicationLine_cases:
  "parseApplicationLine apps line =
     (case bundleMatch (trim line) of
        None \<Rightarrow> apps
      | Some (b, a) \<Rightarrow>
          (if b \<in> bundleId ` set apps then apps
           else apps @ [\<lparr>bundleId = b, displayName = Some a,
                          pid = pidMatch (trim line), fullPath = pathMatch (trim line)\<rparr>]))"
proof (cases "trim line = []")
  case True
  then have "bundleMatch (trim line) = None"
    by (simp add: bundleMatch_def bundleAt_def startsWith_def)
  with True show ?thesis by (simp add: parseApplicationLine_def)
next
  case False
  then show ?thesis
    by (simp add: parseApplicationLine_def Let_def find_bundleId split: option.splits)
qed

lemma parseApplicationLine_distinct:
  "distinct (map bundleId apps) \<Longrightarrow> distinct (map bundleId (parseApplicationLine apps line))"
  by (auto simp: parseApplicationLine_cases split: option.splits)

lemma parseApplicationOutput_distinct: "distinct (map bundleId (parseApplicationOutput out))"
  unfolding parseApplicationOutput_def
  by (rule foldl_invariant) (simp_all add: parseApplicationLine_distinct)

lemma appBacktrack_app:
  "n \<noteq> [] \<Longrightarrow> length n \<le> k \<Longrightarrow> appBacktrack k (n @ ''.app'') = Some (n @ ''.app'')"
proof (induction k)
  case 0
  then show ?case by simp
next
  case (Suc k)
  show ?case
  proof (cases "Suc k = length n")
    case True
    then show ?thesis using True [symmetric] by simp
  next
    case False
    with Suc.prems have le: "length n \<le> k" by simp
    then have lt: "length (take 4 (drop (Suc k) (n @ ''.app''))) < 4" by simp
    have "take 4 (drop (Suc k) (n @ ''.app'')) \<noteq> ''.app''"
    proof
      assume e: "take 4 (drop (Suc k) (n @ ''.app'')) = ''.app''"
      have "length (take 4 (drop (Suc k) (n @ ''.app''))) = 4" by (simp only: e) simp
      with lt show False by simp
    qed
    with Suc.IH [OF Suc.prems(1) le] show ?thesis by simp
  qed
qed

lemma bundleTail_fragment:
  assumes "b \<noteq> []" "CHR ''/'' \<notin> set b" "n \<noteq> []" "CHR ''/'' \<notin> set n"
    and "post = [] \<or> hd post = CHR ''/''"
  shows "bundleTail (b @ ''/'' @ n @ ''.app'' @ post) = Some (b, n @ ''.app'')"
proof -
  have b: "\<forall>x\<in>set b. notSlash x" using assms(2) by (auto simp: notSlash_def)
  have n: "\<forall>x\<in>set (n @ ''.app''). notSlash x" using assms(4) by (auto simp: notSlash_def)
  have post: "post = [] \<or> \<not> notSlash (hd post)" using assms(5) by (auto simp: notSlash_def)
  have 1: "takeWhile notSlash (b @ ''/'' @ n @ ''.app'' @ post) = b"
    by (rule takeWhile_upto [OF b]) (simp add: notSlash_def)
  have 2: "dropWhile notSlash (b @ ''/'' @ n @ ''.app'' @ post) = ''/'' @ n @ ''.app'' @ post"
    by (rule dropWhile_upto [OF b]) (simp add: notSlash_def)
  have 3: "takeWhile notSlash (n @ ''.app'' @ post) = n @ ''.app''"
    using takeWhile_upto [OF n post] by simp
  have 4: "appSegment (n @ ''.app'') = Some (n @ ''.app'')"
    unfolding appSegment_def by (rule appBacktrack_app) (simp_all add: assms(3))
  show ?thesis
    unfolding bundleTail_def 1 2 using assms(1) 3 4 by simp
qed

lemma bundleMatch_fragment:
  assumes "b \<noteq> []" "CHR ''/'' \<notin> set b" "n \<noteq> []" "CHR ''/'' \<notin> set n"
    and "post = [] \<or> hd post = CHR ''/''"
    and "\<forall>i<length pre.
           bundleAt (drop i (pre @ ''Bundle/Application/'' @ b @ ''/'' @ n @ ''.app'' @ post)) = None"
  shows "bundleMatch (pre @ ''Bundle/Application/'' @ b @ ''/'' @ n @ ''.app'' @ post) =
           Some (b, n @ ''.app'')"
proof -
  have "bundleAt (''Bundle/Application/'' @ b @ ''/'' @ n @ ''.app'' @ post) = Some (b, n @ ''.app'')"
    using bundleTail_fragment [OF assms(1-5)] by (simp add: bundleAt_def startsWith_def)
  then have "search bundleAt (''Bundle/Application/'' @ b @ ''/'' @ n @ ''.app'' @ post) =
      Some (b, n @ ''.app'')"
    by (rule search_here)
  with search_skip [OF assms(6)] show ?thesis by (simp add: bundleMatch_def)
qed


lemma application_example:
  "parseApplicationOutput
     (''12 /private/var/containers/Bundle/Application/com.example.app/MyGame.app/MyGame'' @
      [CHR 0x0A] @
      ''13 /private/var/containers/Bundle/Application/com.example.app/Helper.app/Helper'') =
   [\<lparr>bundleId = ''com.example.app'', displayName = Some ''MyGame.app'', pid = Some ''12'',
     fullPath = Some ''/private/var/containers/Bundle/Application/com.example.app/MyGame.app''\<rparr>]"
  by code_simp

lemma application_example_positions:
  "\<forall>i<length ''12 /private/var/containers/''.
     bundleAt (drop i (trim
       ''12 /private/var/containers/Bundle/Application/com.example.app/MyGame.app/MyGame'')) = None"
  unfolding all_less_list_all by code_simp

lemma application_example_first:
  "parseApplicationLine []
     ''12 /private/var/containers/Bundle/Application/com.example.app/MyGame.app/MyGame'' =
   [\<lparr>bundleId = ''com.example.app'', displayName = Some ''MyGame.app'', pid = Some ''12'',
     fullPath = Some ''/private/var/containers/Bundle/Application/com.example.app/MyGame.app''\<rparr>]"
  by code_simp

text \<open>
  Claim C5. The list \<^verbatim>\<open>parseApplicationOutput\<close> returns has pairwise distinct bundle
  identifiers. A line adds at most one record, at the end of the list and only
  when the pattern matches its trimmed text and no record with that bundle
  identifier is there yet; the records already there stay as they are (the first
  occurrence wins). For a trimmed line whose first match is the fragment
  \<^verbatim>\<open>Bundle/Application/<b>/<n>.app\<close>, with \<open>b\<close> and \<open>n\<close> non-empty and free of slashes
  and the fragment ending the line or followed by a slash, the record has bundle
  identifier \<open>b\<close> and display name \<open>n.app\<close>.
\<close>

theorem application_parsing_dedup:
  "distinct (map bundleId (parseApplicationOutput out)) \<and>
   parseApplicationLine apps line =
     (case bundleMatch (trim line) of
        None \<Rightarrow> apps
      | Some (b', a) \<Rightarrow>
          (if b' \<in> bundleId ` set apps then apps
           else apps @ [\<lparr>bundleId = b', displayName = Some a,
                          pid = pidMatch (trim line), fullPath = pathMatch (trim line)\<rparr>])) \<and>
   (trim line = pre @ ''Bundle/Application/'' @ b @ ''/'' @ n @ ''.app'' @ post \<and>
    b \<noteq> [] \<and> CHR ''/'' \<notin> set b \<and> n \<noteq> [] \<and> CHR ''/'' \<notin> set n \<and>
    (post = [] \<or> hd post = CHR ''/'') \<and>
    (\<forall>i<length pre. bundleAt (drop i (trim line)) = None) \<longrightarrow>
    parseApplicationLine apps line =
      (if b \<in> bundleId ` set apps then apps
       else apps @ [\<lparr>bundleId = b, displayName = Some (n @ ''.app''),
                      pid = pidMatch (trim line), fullPath = pathMatch (trim line)\<rparr>]))"
proof (intro conjI impI)
  show "distinct (map bundleId (parseApplicationOutput out))"
    by (rule parseApplicationOutput_distinct)
next
  show "parseApplicationLine apps line =
     (case bundleMatch (trim line) of
        None \<Rightarrow> apps
      | Some (b', a) \<Rightarrow>
          (if b' \<in> bundleId ` set apps then apps
           else apps @ [\<lparr>bundleId = b', displayName = Some a,
                          pid = pidMatch (trim line), fullPath = pathMatch (trim line)\<rparr>]))"
    by (rule parseApplicationLine_cases)
next
  assume a: "trim line = pre @ ''Bundle/Application/'' @ b @ ''/'' @ n @ ''.app'' @ post \<and>
    b \<noteq> [] \<and> CHR ''/'' \<notin> set b \<and> n \<noteq> [] \<and> CHR ''/'' \<notin> set n \<and>
    (post = [] \<or> hd post = CHR ''/'') \<and>
    (\<forall>i<length pre. bundleAt (drop i (trim line)) = None)"
  then have eq: "trim line = pre @ ''Bundle/Application/'' @ b @ ''/'' @ n @ ''.app'' @ post"
    by (rule conjunct1)
  from a have side: "b \<noteq> []" "CHR ''/'' \<notin> set b" "n \<noteq> []" "CHR ''/'' \<notin> set n"
    "post = [] \<or> hd post = CHR ''/''"
    by blast+
  from a have "\<forall>i<length pre. bundleAt (drop i (trim line)) = None" by blast
  then have "\<forall>i<length pre.
      bundleAt (drop i (pre @ ''Bundle/Application/'' @ b @ ''/'' @ n @ ''.app'' @ post)) = None"
    by (simp only: eq)
  from bundleMatch_fragment [OF side this]
  have "bundleMatch (trim line) = Some (b, n @ ''.app'')"
    by (simp only: eq)
  then show "parseApplicationLine apps line =
      (if b \<in> bundleId ` set apps then apps
       else apps @ [\<lparr>bundleId = b, displayName = Some (n @ ''.app''),
                      pid = pidMatch (trim line), fullPath = pathMatch (trim line)\<rparr>])"
    by (simp add: parseApplicationLine_cases)
qed

theorem application_parsing_dedup_witness:
  "distinct (map bundleId (parseApplicationOutput
     (''12 /private/var/containers/Bundle/Application/com.example.app/MyGame.app/MyGame'' @
      [CHR 0x0A] @
      ''13 /private/var/containers/Bundle/Application/com.example.app/Helper.app/Helper''))) \<and>
   parseApplicationOutput
     (''12 /private/var/containers/Bundle/Application/com.example.app/MyGame.app/MyGame'' @
      [CHR 0x0A] @
      ''13 /private/var/containers/Bundle/Application/com.example.app/Helper.app/Helper'') =
   [\<lparr>bundleId = ''com.example.app'', displayName = Some ''MyGame.app'', pid = Some ''12'',
     fullPath = Some ''/private/var/containers/Bundle/Application/com.example.app/MyGame.app''\<rparr>] \<and>
   parseApplicationLine []
     ''12 /private/var/containers/Bundle/Application/com.example.app/MyGame.app/MyGame'' =
   [\<lparr>bundleId = ''com.example.app'', displayName = Some ''MyGame.app'', pid = Some ''12'',
     fullPath = Some ''/private/var/containers/Bundle/Application/com.example.app/MyGame.app''\<rparr>]"
proof -
  have t: "trim ''12 /private/var/containers/Bundle/Application/com.example.app/MyGame.app/MyGame'' =
      ''12 /private/var/containers/'' @ ''Bundle/Application/'' @ ''com.example.app'' @ ''/'' @
      ''MyGame'' @ ''.app'' @ ''/MyGame''"
    by code_simp
  note th = application_parsing_dedup
      [of "''12 /private/var/containers/Bundle/Application/com.example.app/MyGame.app/MyGame'' @
           [CHR 0x0A] @
           ''13 /private/var/containers/Bundle/Application/com.example.app/Helper.app/Helper''"
          "[]"
          "''12 /private/var/containers/Bundle/Application/com.example.app/MyGame.app/MyGame''"
          "''12 /private/var/containers/''" "''com.example.app''" "''MyGame''" "''/MyGame''"]
  have hyp:
    "trim ''12 /private/var/containers/Bundle/Application/com.example.app/MyGame.app/MyGame'' =
       ''12 /private/var/containers/'' @ ''Bundle/Application/'' @ ''com.example.app'' @ ''/'' @
       ''MyGame'' @ ''.app'' @ ''/MyGame'' \<and>
     ''com.example.app'' \<noteq> [] \<and> CHR ''/'' \<notin> set ''com.example.app'' \<and>
     ''MyGame'' \<noteq> [] \<and> CHR ''/'' \<notin> set ''MyGame'' \<and>
     (''/MyGame'' = [] \<or> hd ''/MyGame'' = CHR ''/'') \<and>
     (\<forall>i<length ''12 /private/var/containers/''.
        bundleAt (drop i (trim
          ''12 /private/var/containers/Bundle/Application/com.example.app/MyGame.app/MyGame'')) =
        None)"
    using t application_example_positions by simp
  from th [THEN conjunct2, THEN conjunct2, THEN mp, OF hyp] th [THEN conjunct1]
    application_example application_example_first
  show ?thesis by simp
qed

section \<open>Identifier lines of the legacy format\<close>

lemma legacy_embedded_example:
  "parseDeviceOutputLegacy ''found deviceidentifier:  00ab-12 (usb)'' =
     [\<lparr>identifier = ''00ab-12'', name = None, platform = None, connectionType = None\<rparr>]"
  by code_simp

lemma legacy_embedded_trim:
  "trim ''found deviceidentifier:  00ab-12 (usb)'' =
     ''found device'' @ ''identifier:'' @ ''  '' @ ''00ab-12'' @ '' (usb)''"
  by code_simp

lemma legacy_embedded_positions:
  "\<forall>i<length ''found device''.
     identifierAt (drop i (trim ''found deviceidentifier:  00ab-12 (usb)'')) = None"
  unfolding all_less_list_all by code_simp

text \<open>
  Claim C10. In legacy device parsing, a line whose trimmed text contains the
  label \<^verbatim>\<open>Identifier:\<close> in any letter case at any position, followed by optional
  white space and a non-empty run of hexadecimal digits and hyphens, opens a new
  device record (the record open so far is pushed first); when no earlier
  position of the line matches, the identifier of the new record is that run,
  whatever text stands before the label or after the run.
\<close>

theorem legacy_identifier_anywhere:
  "trim line = pre @ lab @ ws @ run @ post \<and>
   map canonicalize lab = map canonicalize ''Identifier:'' \<and>
   (\<forall>c\<in>set ws. isWhiteSpace c) \<and> run \<noteq> [] \<and> (\<forall>c\<in>set run. isHexOrHyphen c) \<and>
   (post = [] \<or> \<not> isHexOrHyphen (hd post)) \<longrightarrow>
   (\<exists>r. legacyLine (devices, cur) line =
          (pushCurrent devices cur, emptyDevice\<lparr>cur_identifier := Some r\<rparr>)) \<and>
   ((\<forall>i<length pre. identifierAt (drop i (trim line)) = None) \<longrightarrow>
      legacyLine (devices, cur) line =
        (pushCurrent devices cur, emptyDevice\<lparr>cur_identifier := Some run\<rparr>))"
proof (intro impI)
  assume a: "trim line = pre @ lab @ ws @ run @ post \<and>
   map canonicalize lab = map canonicalize ''Identifier:'' \<and>
   (\<forall>c\<in>set ws. isWhiteSpace c) \<and> run \<noteq> [] \<and> (\<forall>c\<in>set run. isHexOrHyphen c) \<and>
   (post = [] \<or> \<not> isHexOrHyphen (hd post))"
  then have eq: "trim line = pre @ lab @ ws @ run @ post" by (rule conjunct1)
  from a have side: "map canonicalize lab = map canonicalize ''Identifier:''"
    "\<forall>c\<in>set ws. isWhiteSpace c" "run \<noteq> []" "\<forall>c\<in>set run. isHexOrHyphen c"
    "post = [] \<or> \<not> isHexOrHyphen (hd post)"
    by blast+
  have here: "identifierAt (lab @ ws @ run @ post) = Some run"
    by (rule identifierAt_run [OF side])
  have some: "\<exists>r. legacyLine (devices, cur) line =
          (pushCurrent devices cur, emptyDevice\<lparr>cur_identifier := Some r\<rparr>)"
  proof -
    from search_suffix [of identifierAt "lab @ ws @ run @ post" run pre, OF here]
    obtain r where "identifierRegex (trim line) = Some r"
      by (auto simp only: eq identifierRegex_def)
    then show ?thesis by (auto simp only: legacyLine_identifier)
  qed
  have first: "legacyLine (devices, cur) line =
        (pushCurrent devices cur, emptyDevice\<lparr>cur_identifier := Some run\<rparr>)"
    if "\<forall>i<length pre. identifierAt (drop i (trim line)) = None"
  proof -
    from that have "\<forall>i<length pre. identifierAt (drop i (pre @ lab @ ws @ run @ post)) = None"
      by (simp only: eq)
    then have "search identifierAt (pre @ lab @ ws @ run @ post) =
        search identifierAt (lab @ ws @ run @ post)"
      by (rule search_skip)
    also have "\<dots> = Some run" using here by (rule search_here)
    finally have "identifierRegex (trim line) = Some run"
      by (simp only: eq identifierRegex_def)
    then show ?thesis by (rule legacyLine_identifier)
  qed
  from some first
  show "(\<exists>r. legacyLine (devices, cur) line =
          (pushCurrent devices cur, emptyDevice\<lparr>cur_identifier := Some r\<rparr>)) \<and>
   ((\<forall>i<length pre. identifierAt (drop i (trim line)) = None) \<longrightarrow>
      legacyLine (devices, cur) line =
        (pushCurrent devices cur, emptyDevice\<lparr>cur_identifier := Some run\<rparr>))"
    by blast
qed

theorem legacy_identifier_anywhere_witness:
  "legacyLine ([], emptyDevice) ''found deviceidentifier:  00ab-12 (usb)'' =
     ([], emptyDevice\<lparr>cur_identifier := Some ''00ab-12''\<rparr>) \<and>
   parseDeviceOutputLegacy ''found deviceidentifier:  00ab-12 (usb)'' =
     [\<lparr>identifier = ''00ab-12'', name = None, platform = None, connectionType = None\<rparr>]"
proof -
  have hyp:
    "trim ''found deviceidentifier:  00ab-12 (usb)'' =
       ''found device'' @ ''identifier:'' @ ''  '' @ ''00ab-12'' @ '' (usb)'' \<and>
     map canonicalize ''identifier:'' = map canonicalize ''Identifier:'' \<and>
     (\<forall>c\<in>set ''  ''. isWhiteSpace c) \<and> ''00ab-12'' \<noteq> [] \<and>
     (\<forall>c\<in>set ''00ab-12''. isHexOrHyphen c) \<and>
     ('' (usb)'' = [] \<or> \<not> isHexOrHyphen (hd '' (usb)''))"
    using legacy_embedded_trim
    by (simp add: canonicalize_def isWhiteSpace_def isHexOrHyphen_def)
  from legacy_identifier_anywhere
      [of "''found deviceidentifier:  00ab-12 (usb)''" "''found device''" "''identifier:''"
          "''  ''" "''00ab-12''" "'' (usb)''" "[]" emptyDevice,
       THEN mp, OF hyp, THEN conjunct2, THEN mp, OF legacy_embedded_positions]
    legacy_embedded_example
  show ?thesis by (simp add: pushCurrent_def emptyDevice_def)
qed

section \<open>Values stored by the legacy format\<close>

lemma legacy_partial_identifier_example:
  "parseDeviceOutputLegacy ''Identifier: ABC-XYZ'' =
     [\<lparr>identifier = ''ABC-'', name = None, platform = None, connectionType = None\<rparr>]"
  by code_simp

text \<open>
  Claim C3 as stated fails for the label \<^verbatim>\<open>Identifier\<close>: of the line
  \<^verbatim>\<open>Identifier: ABC-XYZ\<close> the record keeps \<^verbatim>\<open>ABC-\<close>, not the trimmed remainder
  \<^verbatim>\<open>ABC-XYZ\<close> of the line.
\<close>

theorem legacy_identifier_remainder_counterexample:
  "map identifier (parseDeviceOutputLegacy ''Identifier: ABC-XYZ'') = [''ABC-''] \<and>
   trim '' ABC-XYZ'' = ''ABC-XYZ'' \<and> ''ABC-'' \<noteq> ''ABC-XYZ''"
  by (simp add: legacy_partial_identifier_example trim_def isWhiteSpace_def)

lemma legacy_values_trim:
  "trim ''Device Name:  My Phone  '' = ''Device '' @ ''Name:'' @ ''  My Phone'' \<and>
   trim ''Platform: iOS 17'' = [] @ ''Platform:'' @ '' iOS 17'' \<and>
   trim ''connection type: wired'' = [] @ ''connection type:'' @ '' wired'' \<and>
   trim ''Identifier: ABC-XYZ'' = [] @ ''Identifier:'' @ '' ABC-XYZ''"
  by code_simp

lemma legacy_values_none:
  "identifierRegex (trim ''Device Name:  My Phone  '') = None \<and>
   identifierRegex (trim ''Platform: iOS 17'') = None \<and>
   nameRegex (trim ''Platform: iOS 17'') = None \<and>
   identifierRegex (trim ''connection type: wired'') = None \<and>
   nameRegex (trim ''connection type: wired'') = None \<and>
   platformRegex (trim ''connection type: wired'') = None"
  by code_simp

lemma legacy_values_positions:
  "\<forall>i<length ''Device ''. fieldAt ''Name:'' (drop i (trim ''Device Name:  My Phone  '')) = None"
  unfolding all_less_list_all by code_simp

lemma legacy_values_eval:
  "takeWhile (\<lambda>c. \<not> isLineTerminator c) (trim ''  My Phone'') = ''My Phone'' \<and>
   takeWhile (\<lambda>c. \<not> isLineTerminator c) (trim '' iOS 17'') = ''iOS 17'' \<and>
   takeWhile (\<lambda>c. \<not> isLineTerminator c) (trim '' wired'') = ''wired'' \<and>
   takeWhile isHexOrHyphen (trim '' ABC-XYZ'') = ''ABC-''"
  by code_simp

text \<open>
  Claim C3, amended. Let the trimmed line be \<open>pre @ lab @ rest\<close> where \<open>lab\<close> is the
  first place of the line at which the pattern of the label matches. For the
  labels \<^verbatim>\<open>Name:\<close>, \<^verbatim>\<open>Platform:\<close> and \<^verbatim>\<open>Connection Type:\<close> (in any letter case), with a
  non-empty remainder \<open>rest\<close>, a record open, and no pattern of higher precedence
  matching the line, the value stored is the white-space-trimmed remainder up
  to its first line terminator. For the label \<^verbatim>\<open>Identifier:\<close> the value stored as
  the identifier of the new record is only the longest run of hexadecimal
  digits and hyphens at the start of the trimmed remainder, and that place
  matches only when the run is not empty.
\<close>

theorem legacy_values_stored:
  "trim line = pre @ lab @ rest \<longrightarrow>
   (map canonicalize lab = map canonicalize ''Name:'' \<and> rest \<noteq> [] \<and>
    (\<forall>i<length pre. fieldAt ''Name:'' (drop i (trim line)) = None) \<and>
    isOpen cur \<and> identifierRegex (trim line) = None \<longrightarrow>
    legacyLine (devices, cur) line =
      (devices, cur\<lparr>cur_name :=
         Some (takeWhile (\<lambda>c. \<not> isLineTerminator c) (trim rest))\<rparr>)) \<and>
   (map canonicalize lab = map canonicalize ''Platform:'' \<and> rest \<noteq> [] \<and>
    (\<forall>i<length pre. fieldAt ''Platform:'' (drop i (trim line)) = None) \<and>
    isOpen cur \<and> identifierRegex (trim line) = None \<and> nameRegex (trim line) = None \<longrightarrow>
    legacyLine (devices, cur) line =
      (devices, cur\<lparr>cur_platform :=
         Some (takeWhile (\<lambda>c. \<not> isLineTerminator c) (trim rest))\<rparr>)) \<and>
   (map canonicalize lab = map canonicalize ''Connection Type:'' \<and> rest \<noteq> [] \<and>
    (\<forall>i<length pre. fieldAt ''Connection Type:'' (drop i (trim line)) = None) \<and>
    isOpen cur \<and> identifierRegex (trim line) = None \<and> nameRegex (trim line) = None \<and>
    platformRegex (trim line) = None \<longrightarrow>
    legacyLine (devices, cur) line =
      (devices, cur\<lparr>cur_connectionType :=
         Some (takeWhile (\<lambda>c. \<not> isLineTerminator c) (trim rest))\<rparr>)) \<and>
   (map canonicalize lab = map canonicalize ''Identifier:'' \<longrightarrow>
    identifierAt (lab @ rest) =
      (if takeWhile isHexOrHyphen (trim rest) = [] then None
       else Some (takeWhile isHexOrHyphen (trim rest))) \<and>
    (takeWhile isHexOrHyphen (trim rest) \<noteq> [] \<and>
     (\<forall>i<length pre. identifierAt (drop i (trim line)) = None) \<longrightarrow>
     legacyLine (devices, cur) line =
       (pushCurrent devices cur,
        emptyDevice\<lparr>cur_identifier := Some (takeWhile isHexOrHyphen (trim rest))\<rparr>)))"
proof (intro impI conjI)
  assume eq: "trim line = pre @ lab @ rest"
  {
    assume a: "map canonicalize lab = map canonicalize ''Name:'' \<and> rest \<noteq> [] \<and>
      (\<forall>i<length pre. fieldAt ''Name:'' (drop i (trim line)) = None) \<and>
      isOpen cur \<and> identifierRegex (trim line) = None"
    then have "nameRegex (trim line) =
        Some (takeWhile (\<lambda>c. \<not> isLineTerminator c) (trim rest))"
      unfolding nameRegex_def by (intro field_first_match [OF eq]) blast+
    with a show "legacyLine (devices, cur) line =
      (devices, cur\<lparr>cur_name :=
         Some (takeWhile (\<lambda>c. \<not> isLineTerminator c) (trim rest))\<rparr>)"
      by (intro legacyLine_name) blast+
  }
  {
    assume a: "map canonicalize lab = map canonicalize ''Platform:'' \<and> rest \<noteq> [] \<and>
      (\<forall>i<length pre. fieldAt ''Platform:'' (drop i (trim line)) = None) \<and>
      isOpen cur \<and> identifierRegex (trim line) = None \<and> nameRegex (trim line) = None"
    then have "platformRegex (trim line) =
        Some (takeWhile (\<lambda>c. \<not> isLineTerminator c) (trim rest))"
      unfolding platformRegex_def by (intro field_first_match [OF eq]) blast+
    with a show "legacyLine (devices, cur) line =
      (devices, cur\<lparr>cur_platform :=
         Some (takeWhile (\<lambda>c. \<not> isLineTerminator c) (trim rest))\<rparr>)"
      by (intro legacyLine_platform) blast+
  }
  {
    assume a: "map canonicalize lab = map canonicalize ''Connection Type:'' \<and> rest \<noteq> [] \<and>
      (\<forall>i<length pre. fieldAt ''Connection Type:'' (drop i (trim line)) = None) \<and>
      isOpen cur \<and> identifierRegex (trim line) = None \<and> nameRegex (trim line) = None \<and>
      platformRegex (trim line) = None"
    then have "connectionRegex (trim line) =
        Some (takeWhile (\<lambda>c. \<not> isLineTerminator c) (trim rest))"
      unfolding connectionRegex_def by (intro field_first_match [OF eq]) blast+
    with a show "legacyLine (devices, cur) line =
      (devices, cur\<lparr>cur_connectionType :=
         Some (takeWhile (\<lambda>c. \<not> isLineTerminator c) (trim rest))\<rparr>)"
      by (intro legacyLine_connection) blast+
  }
  {
    assume lab: "map canonicalize lab = map canonicalize ''Identifier:''"
    show "identifierAt (lab @ rest) =
      (if takeWhile isHexOrHyphen (trim rest) = [] then None
       else Some (takeWhile isHexOrHyphen (trim rest)))"
    proof (cases "rest = []")
      case True
      then show ?thesis using identifierAt_label [OF lab, of "[]"] by (simp add: trim_def)
    next
      case False
      have "dropWhile isWhiteSpace rest = trim rest"
        by (rule dropWhile_trimmed [OF False suffix_of_trim [OF eq False]])
      then show ?thesis by (simp add: identifierAt_label [OF lab])
    qed
    assume a: "takeWhile isHexOrHyphen (trim rest) \<noteq> [] \<and>
      (\<forall>i<length pre. identifierAt (drop i (trim line)) = None)"
    then have "identifierRegex (trim line) = Some (takeWhile isHexOrHyphen (trim rest))"
      by (intro identifier_first_match [OF eq lab]) blast+
    then show "legacyLine (devices, cur) line =
       (pushCurrent devices cur,
        emptyDevice\<lparr>cur_identifier := Some (takeWhile isHexOrHyphen (trim rest))\<rparr>)"
      by (rule legacyLine_identifier)
  }
qed


theorem legacy_values_stored_witness:
  "legacyLine ([], emptyDevice\<lparr>cur_identifier := Some ''AB''\<rparr>) ''Device Name:  My Phone  '' =
     ([], emptyDevice\<lparr>cur_identifier := Some ''AB'', cur_name := Some ''My Phone''\<rparr>) \<and>
   legacyLine ([], emptyDevice\<lparr>cur_identifier := Some ''AB''\<rparr>) ''Platform: iOS 17'' =
     ([], emptyDevice\<lparr>cur_identifier := Some ''AB'', cur_platform := Some ''iOS 17''\<rparr>) \<and>
   legacyLine ([], emptyDevice\<lparr>cur_identifier := Some ''AB''\<rparr>) ''connection type: wired'' =
     ([], emptyDevice\<lparr>cur_identifier := Some ''AB'', cur_connectionType := Some ''wired''\<rparr>) \<and>
   legacyLine ([], emptyDevice) ''Identifier: ABC-XYZ'' =
     ([], emptyDevice\<lparr>cur_identifier := Some ''ABC-''\<rparr>)"
proof -
  let ?cur = "emptyDevice\<lparr>cur_identifier := Some ''AB''\<rparr>"
  have "isOpen ?cur" by (simp add: isOpen_def emptyDevice_def)
  note facts = this legacy_values_none legacy_values_positions legacy_values_eval
  have n: "legacyLine ([], ?cur) ''Device Name:  My Phone  '' =
      ([], ?cur\<lparr>cur_name := Some ''My Phone''\<rparr>)"
    using legacy_values_stored
      [of "''Device Name:  My Phone  ''" "''Device ''" "''Name:''" "''  My Phone''" ?cur "[]",
       THEN mp, OF legacy_values_trim [THEN conjunct1], THEN conjunct1] facts
    by simp
  have p: "legacyLine ([], ?cur) ''Platform: iOS 17'' =
      ([], ?cur\<lparr>cur_platform := Some ''iOS 17''\<rparr>)"
    using legacy_values_stored
      [of "''Platform: iOS 17''" "[]" "''Platform:''" "'' iOS 17''" ?cur "[]",
       THEN mp, OF legacy_values_trim [THEN conjunct2, THEN conjunct1],
       THEN conjunct2, THEN conjunct1] facts
    by simp
  have c: "legacyLine ([], ?cur) ''connection type: wired'' =
      ([], ?cur\<lparr>cur_connectionType := Some ''wired''\<rparr>)"
    using legacy_values_stored
      [of "''connection type: wired''" "[]" "''connection type:''" "'' wired''" ?cur "[]",
       THEN mp, OF legacy_values_trim [THEN conjunct2, THEN conjunct2, THEN conjunct1],
       THEN conjunct2, THEN conjunct2, THEN conjunct1] facts
    by (simp add: canonicalize_def)
  have i: "legacyLine ([], emptyDevice) ''Identifier: ABC-XYZ'' =
      ([], emptyDevice\<lparr>cur_identifier := Some ''ABC-''\<rparr>)"
    using legacy_values_stored
      [of "''Identifier: ABC-XYZ''" "[]" "''Identifier:''" "'' ABC-XYZ''" emptyDevice "[]",
       THEN mp, OF legacy_values_trim [THEN conjunct2, THEN conjunct2, THEN conjunct2],
       THEN conjunct2, THEN conjunct2, THEN conjunct2] facts
    by (simp add: pushCurrent_def emptyDevice_def)
  from n p c i show ?thesis by simp
qed

section \<open>Record boundaries of the legacy format\<close>

lemma identifierRegex_nonempty: "identifierRegex s = Some i \<Longrightarrow> i \<noteq> []"
proof -
  assume "identifierRegex s = Some i"
  then obtain k where "identifierAt (drop k s) = Some i"
    unfolding identifierRegex_def by (blast dest: search_Some_at)
  then show ?thesis
    by (auto simp: identifierAt_def Let_def split: if_splits)
qed

lemma pushCurrent_ids: "map identifier (pushCurrent ds cur) = map identifier ds @ pending cur"
  by (simp add: pushCurrent_def pending_def split: option.splits)

lemma legacyLine_field_line:
  assumes "identifierRegex (trim line) = None"
  shows "fst (legacyLine (devices, cur) line) = devices"
    and "cur_identifier (snd (legacyLine (devices, cur) line)) = cur_identifier cur"
    and "\<not> isOpen cur \<Longrightarrow> legacyLine (devices, cur) line = (devices, cur)"
  using assms by (simp_all add: legacyLine_def Let_def split: option.splits)

lemma legacyLine_ids:
  "map identifier (fst (legacyLine st l)) @ pending (snd (legacyLine st l)) =
   map identifier (fst st) @ pending (snd st) @ identifierOfLine l"
proof (cases "identifierRegex (trim l)")
  case None
  from legacyLine_field_line(1,2) [OF None, of "fst st" "snd st"]
  show ?thesis by (simp add: identifierOfLine_def None pending_def)
next
  case (Some i)
  then have "i \<noteq> []" by (rule identifierRegex_nonempty)
  with Some show ?thesis
    by (simp add: legacyLine_def identifierOfLine_def pushCurrent_ids)
       (simp add: pending_def emptyDevice_def)
qed

lemma foldl_legacyLine_ids:
  "map identifier (fst (foldl legacyLine st ls)) @ pending (snd (foldl legacyLine st ls)) =
   map identifier (fst st) @ pending (snd st) @ concat (map identifierOfLine ls)"
proof (induction ls arbitrary: st)
  case Nil
  then show ?case by simp
next
  case (Cons l ls)
  have "map identifier (fst (foldl legacyLine st (l # ls))) @
        pending (snd (foldl legacyLine st (l # ls))) =
        (map identifier (fst (legacyLine st l)) @ pending (snd (legacyLine st l))) @
        concat (map identifierOfLine ls)"
    using Cons.IH [of "legacyLine st l"] by simp
  then show ?case by (simp only: legacyLine_ids) simp
qed

lemma legacy_ids:
  "map identifier (parseDeviceOutputLegacy out) = concat (map identifierOfLine (lines_of out))"
  using foldl_legacyLine_ids [of "([], emptyDevice)" "lines_of out"]
  by (simp add: parseDeviceOutputLegacy_def Let_def pushCurrent_ids)
     (simp add: pending_def emptyDevice_def)

lemma two_blocks:
  assumes "hexRun X1" "plainValue Y1" "plainValue Z1" "hexRun X2" "plainValue Y2" "plainValue Z2"
  shows "parseDeviceOutputLegacy
     (''Identifier: '' @ X1 @ [CHR 0x0A] @ ''Name: '' @ Y1 @ [CHR 0x0A] @
      ''Platform: '' @ Z1 @ [CHR 0x0A] @ ''Identifier: '' @ X2 @ [CHR 0x0A] @
      ''Name: '' @ Y2 @ [CHR 0x0A] @ ''Platform: '' @ Z2) =
     [\<lparr>identifier = X1, name = Some Y1, platform = Some Z1, connectionType = None\<rparr>,
      \<lparr>identifier = X2, name = Some Y2, platform = Some Z2, connectionType = None\<rparr>]"
proof -
  let ?I1 = "''Identifier: '' @ X1" and ?N1 = "''Name: '' @ Y1" and ?P1 = "''Platform: '' @ Z1"
  let ?I2 = "''Identifier: '' @ X2" and ?N2 = "''Name: '' @ Y2" and ?P2 = "''Platform: '' @ Z2"
  note x1 = hexRun_facts [OF assms(1)] and x2 = hexRun_facts [OF assms(4)]
  note y1 = plainValue_facts [OF assms(2)] and z1 = plainValue_facts [OF assms(3)]
  note y2 = plainValue_facts [OF assms(5)] and z2 = plainValue_facts [OF assms(6)]
  have nl: "CHR 0x0A \<notin> set ?I1" "CHR 0x0A \<notin> set ?N1" "CHR 0x0A \<notin> set ?P1"
    "CHR 0x0A \<notin> set ?I2" "CHR 0x0A \<notin> set ?N2" "CHR 0x0A \<notin> set ?P2"
    using x1(4) x2(4) y1(6) y2(6) z1(6) z2(6) by simp_all
  have "lines_of (?I1 @ CHR 0x0A # ?N1 @ CHR 0x0A # ?P1 @ CHR 0x0A # ?I2 @ CHR 0x0A # ?N2 @
      CHR 0x0A # ?P2) = [?I1, ?N1, ?P1, ?I2, ?N2, ?P2]"
    unfolding lines_of_def
    by (simp only: splitOn_append [OF nl(1)] splitOn_append [OF nl(2)] splitOn_append [OF nl(3)]
        splitOn_append [OF nl(4)] splitOn_append [OF nl(5)] splitOn_no_sep [OF nl(6)])
  moreover have "?I1 @ CHR 0x0A # ?N1 @ CHR 0x0A # ?P1 @ CHR 0x0A # ?I2 @ CHR 0x0A # ?N2 @
      CHR 0x0A # ?P2 =
      ''Identifier: '' @ X1 @ [CHR 0x0A] @ ''Name: '' @ Y1 @ [CHR 0x0A] @
      ''Platform: '' @ Z1 @ [CHR 0x0A] @ ''Identifier: '' @ X2 @ [CHR 0x0A] @
      ''Name: '' @ Y2 @ [CHR 0x0A] @ ''Platform: '' @ Z2"
    by simp
  ultimately have ls: "lines_of (''Identifier: '' @ X1 @ [CHR 0x0A] @ ''Name: '' @ Y1 @ [CHR 0x0A] @
      ''Platform: '' @ Z1 @ [CHR 0x0A] @ ''Identifier: '' @ X2 @ [CHR 0x0A] @
      ''Name: '' @ Y2 @ [CHR 0x0A] @ ''Platform: '' @ Z2) = [?I1, ?N1, ?P1, ?I2, ?N2, ?P2]"
    by (simp only:)
  let ?c1 = "emptyDevice\<lparr>cur_identifier := Some X1\<rparr>"
  let ?c2 = "emptyDevice\<lparr>cur_identifier := Some X2\<rparr>"
  have o1: "isOpen ?c1" "isOpen (?c1\<lparr>cur_name := Some Y1\<rparr>)"
    and o2: "isOpen ?c2" "isOpen (?c2\<lparr>cur_name := Some Y2\<rparr>)"
    using x1(1) x2(1) by (simp_all add: isOpen_def)
  have s1: "legacyLine ([], emptyDevice) ?I1 = ([], ?c1)"
    by (simp only: identifier_line [OF assms(1)]) (simp add: pushCurrent_def emptyDevice_def)
  have s2: "legacyLine ([], ?c1) ?N1 = ([], ?c1\<lparr>cur_name := Some Y1\<rparr>)"
    by (rule name_line [OF assms(2) o1(1)])
  have s3: "legacyLine ([], ?c1\<lparr>cur_name := Some Y1\<rparr>) ?P1 =
      ([], ?c1\<lparr>cur_name := Some Y1, cur_platform := Some Z1\<rparr>)"
    by (rule platform_line [OF assms(3) o1(2)])
  let ?d1 = "\<lparr>identifier = X1, name = Some Y1, platform = Some Z1, connectionType = None\<rparr>"
  have s4: "legacyLine ([], ?c1\<lparr>cur_name := Some Y1, cur_platform := Some Z1\<rparr>) ?I2 =
      ([?d1], ?c2)"
    by (simp only: identifier_line [OF assms(4)])
       (simp add: pushCurrent_def emptyDevice_def x1(1))
  have s5: "legacyLine ([?d1], ?c2) ?N2 = ([?d1], ?c2\<lparr>cur_name := Some Y2\<rparr>)"
    by (rule name_line [OF assms(5) o2(1)])
  have s6: "legacyLine ([?d1], ?c2\<lparr>cur_name := Some Y2\<rparr>) ?P2 =
      ([?d1], ?c2\<lparr>cur_name := Some Y2, cur_platform := Some Z2\<rparr>)"
    by (rule platform_line [OF assms(6) o2(2)])
  have "foldl legacyLine ([], emptyDevice) [?I1, ?N1, ?P1, ?I2, ?N2, ?P2] =
      ([?d1], ?c2\<lparr>cur_name := Some Y2, cur_platform := Some Z2\<rparr>)"
    by (simp only: foldl.simps s1 s2 s3 s4 s5 s6)
  then show ?thesis
    unfolding parseDeviceOutputLegacy_def ls
    by (simp add: pushCurrent_def emptyDevice_def x2(1))
qed


text \<open>
  Claim C7 as stated fails when the text after \<^verbatim>\<open>Identifier:\<close> does not begin with a
  hexadecimal digit or a hyphen: the two blocks below, with the identifiers
  \<^verbatim>\<open>phone-1\<close> and \<^verbatim>\<open>phone-2\<close>, yield no record at all, not two.
\<close>

theorem legacy_two_blocks_counterexample:
  "parseDeviceOutputLegacy
     (''Identifier: phone-1'' @ [CHR 0x0A] @ ''Name: My Phone'' @ [CHR 0x0A] @
      ''Platform: iOS'' @ [CHR 0x0A] @ ''Identifier: phone-2'' @ [CHR 0x0A] @
      ''Name: Her Pad'' @ [CHR 0x0A] @ ''Platform: iPadOS'') = []"
  by code_simp

text \<open>
  Claim C7, amended. The identifiers of the records returned are those of the
  lines the identifier pattern matches, one record per such line, in the order
  of the lines. Such a line pushes the record that is open and opens a fresh
  record holding only the new identifier; any other line leaves the list of
  finished records and the identifier of the open record as they are, and
  changes nothing at all when no record is open; after the last line the open
  record is pushed. Hence two blocks \<^verbatim>\<open>Identifier: X\<close>, \<^verbatim>\<open>Name: Y\<close>, \<^verbatim>\<open>Platform: Z\<close>, with
  each \<open>X\<close> a non-empty run of hexadecimal digits and hyphens and each \<open>Y\<close> and \<open>Z\<close>
  a plain value (not empty, no white space at either end, no colon, no line
  terminator), yield exactly two records, in order, each with the identifier,
  name and platform of its own block.
\<close>

theorem legacy_record_boundaries:
  "map identifier (parseDeviceOutputLegacy out) = concat (map identifierOfLine (lines_of out)) \<and>
   (identifierRegex (trim line) = Some i \<longrightarrow>
      legacyLine (devices, cur) line =
        (pushCurrent devices cur, emptyDevice\<lparr>cur_identifier := Some i\<rparr>)) \<and>
   (identifierRegex (trim line) = None \<longrightarrow>
      fst (legacyLine (devices, cur) line) = devices \<and>
      cur_identifier (snd (legacyLine (devices, cur) line)) = cur_identifier cur \<and>
      (\<not> isOpen cur \<longrightarrow> legacyLine (devices, cur) line = (devices, cur))) \<and>
   parseDeviceOutputLegacy out =
     pushCurrent (fst (foldl legacyLine ([], emptyDevice) (lines_of out)))
       (snd (foldl legacyLine ([], emptyDevice) (lines_of out))) \<and>
   (hexRun X1 \<and> plainValue Y1 \<and> plainValue Z1 \<and> hexRun X2 \<and> plainValue Y2 \<and> plainValue Z2 \<longrightarrow>
      parseDeviceOutputLegacy
        (''Identifier: '' @ X1 @ [CHR 0x0A] @ ''Name: '' @ Y1 @ [CHR 0x0A] @
         ''Platform: '' @ Z1 @ [CHR 0x0A] @ ''Identifier: '' @ X2 @ [CHR 0x0A] @
         ''Name: '' @ Y2 @ [CHR 0x0A] @ ''Platform: '' @ Z2) =
      [\<lparr>identifier = X1, name = Some Y1, platform = Some Z1, connectionType = None\<rparr>,
       \<lparr>identifier = X2, name = Some Y2, platform = Some Z2, connectionType = None\<rparr>])"
proof (intro conjI impI)
  show "map identifier (parseDeviceOutputLegacy out) =
      concat (map identifierOfLine (lines_of out))"
    by (rule legacy_ids)
  show "parseDeviceOutputLegacy out =
     pushCurrent (fst (foldl legacyLine ([], emptyDevice) (lines_of out)))
       (snd (foldl legacyLine ([], emptyDevice) (lines_of out)))"
    by (simp add: parseDeviceOutputLegacy_def Let_def)
next
  assume "identifierRegex (trim line) = Some i"
  then show "legacyLine (devices, cur) line =
        (pushCurrent devices cur, emptyDevice\<lparr>cur_identifier := Some i\<rparr>)"
    by (rule legacyLine_identifier)
next
  assume n: "identifierRegex (trim line) = None"
  show "fst (legacyLine (devices, cur) line) = devices"
    by (rule legacyLine_field_line(1) [OF n])
  show "cur_identifier (snd (legacyLine (devices, cur) line)) = cur_identifier cur"
    by (rule legacyLine_field_line(2) [OF n])
  assume "\<not> isOpen cur"
  then show "legacyLine (devices, cur) line = (devices, cur)"
    by (rule legacyLine_field_line(3) [OF n])
next
  assume "hexRun X1 \<and> plainValue Y1 \<and> plainValue Z1 \<and> hexRun X2 \<and> plainValue Y2 \<and> plainValue Z2"
  then show "parseDeviceOutputLegacy
        (''Identifier: '' @ X1 @ [CHR 0x0A] @ ''Name: '' @ Y1 @ [CHR 0x0A] @
         ''Platform: '' @ Z1 @ [CHR 0x0A] @ ''Identifier: '' @ X2 @ [CHR 0x0A] @
         ''Name: '' @ Y2 @ [CHR 0x0A] @ ''Platform: '' @ Z2) =
      [\<lparr>identifier = X1, name = Some Y1, platform = Some Z1, connectionType = None\<rparr>,
       \<lparr>identifier = X2, name = Some Y2, platform = Some Z2, connectionType = None\<rparr>]"
    by (intro two_blocks) blast+
qed

lemma legacy_boundary_eval:
  "identifierRegex (trim ''Identifier: 00008101-77FF'') = Some ''00008101-77FF'' \<and>
   identifierRegex (trim ''Name: My Phone'') = None \<and> \<not> isOpen emptyDevice"
  by code_simp

theorem legacy_record_boundaries_witness:
  "parseDeviceOutputLegacy
     (''Identifier: '' @ ''00008030-001A'' @ [CHR 0x0A] @ ''Name: '' @ ''My Phone'' @ [CHR 0x0A] @
      ''Platform: '' @ ''iOS'' @ [CHR 0x0A] @ ''Identifier: '' @ ''00008101-77FF'' @ [CHR 0x0A] @
      ''Name: '' @ ''Her Pad'' @ [CHR 0x0A] @ ''Platform: '' @ ''iPadOS'') =
   [\<lparr>identifier = ''00008030-001A'', name = Some ''My Phone'',
     platform = Some ''iOS'', connectionType = None\<rparr>,
    \<lparr>identifier = ''00008101-77FF'', name = Some ''Her Pad'',
     platform = Some ''iPadOS'', connectionType = None\<rparr>] \<and>
   legacyLine
     ([], emptyDevice\<lparr>cur_identifier := Some ''00008030-001A'', cur_name := Some ''My Phone''\<rparr>)
     ''Identifier: 00008101-77FF'' =
     ([\<lparr>identifier = ''00008030-001A'', name = Some ''My Phone'', platform = None,
        connectionType = None\<rparr>],
      emptyDevice\<lparr>cur_identifier := Some ''00008101-77FF''\<rparr>) \<and>
   legacyLine ([], emptyDevice) ''Name: My Phone'' = ([], emptyDevice)"
proof -
  have hyp: "hexRun ''00008030-001A'' \<and> plainValue ''My Phone'' \<and> plainValue ''iOS'' \<and>
      hexRun ''00008101-77FF'' \<and> plainValue ''Her Pad'' \<and> plainValue ''iPadOS''"
    by (simp add: hexRun_def plainValue_def isHexOrHyphen_def canonicalize_def
        isWhiteSpace_def isLineTerminator_def)
  note blocks = legacy_record_boundaries
    [of "[]" "[]" "[]" "[]" emptyDevice "''00008030-001A''" "''My Phone''" "''iOS''"
        "''00008101-77FF''" "''Her Pad''" "''iPadOS''",
     THEN conjunct2, THEN conjunct2, THEN conjunct2, THEN conjunct2, THEN mp, OF hyp]
  note opens = legacy_record_boundaries
    [of "[]" "''Identifier: 00008101-77FF''" "''00008101-77FF''" "[]"
        "emptyDevice\<lparr>cur_identifier := Some ''00008030-001A'', cur_name := Some ''My Phone''\<rparr>",
     THEN conjunct2, THEN conjunct1, THEN mp, OF legacy_boundary_eval [THEN conjunct1]]
  note ignored = legacy_record_boundaries
    [of "[]" "''Name: My Phone''" "[]" "[]" emptyDevice,
     THEN conjunct2, THEN conjunct2, THEN conjunct1, THEN mp,
     OF legacy_boundary_eval [THEN conjunct2, THEN conjunct1],
     THEN conjunct2, THEN conjunct2, THEN mp,
     OF legacy_boundary_eval [THEN conjunct2, THEN conjunct2]]
  from blocks opens ignored show ?thesis
    by (simp add: pushCurrent_def emptyDevice_def)
qed

section \<open>Selection\<close>

text \<open>
  Claim C2 as stated fails on a line that begins with a number and goes on with
  other text: with two records the line \<^verbatim>\<open>2abc\<close>, which is no numeral, does not
  fail but selects the second record, in both selections.
\<close>

theorem selection_numeric_prefix_counterexample:
  "\<not> decimalNumeral ''2abc'' \<and>
   answered (selectDevice
     [\<lparr>identifier = ''00008030-001A'', name = None, platform = None, connectionType = None\<rparr>,
      \<lparr>identifier = ''00008101-77FF'', name = None, platform = None, connectionType = None\<rparr>])
     ''2abc'' = Inr ''00008101-77FF'' \<and>
   answered (selectApplication
     [\<lparr>bundleId = ''com.example.one'', displayName = None, pid = None, fullPath = None\<rparr>,
      \<lparr>bundleId = ''com.example.two'', displayName = None, pid = None, fullPath = None\<rparr>])
     ''2abc'' =
     Inr \<lparr>bundleId = ''com.example.two'', displayName = None, pid = None, fullPath = None\<rparr>"
  by code_simp

lemma select_answer:
  "(case parseInt (trim line) of
      None \<Rightarrow> Inl (InvalidSelection n)
    | Some selection \<Rightarrow>
        (if selection < 1 \<or> selection > int n then Inl (InvalidSelection n)
         else Inr (f (xs ! nat (selection - 1))))) =
   (case parseInt (trim line) of
      None \<Rightarrow> Inl (InvalidSelection n)
    | Some k \<Rightarrow>
        (if 1 \<le> k \<and> k \<le> int n then Inr (f (xs ! nat (k - 1)))
         else Inl (InvalidSelection n)))"
  by (auto split: option.splits)

lemma select_decimal:
  "(case parseInt (trim (decimal k)) of
      None \<Rightarrow> Inl (InvalidSelection n)
    | Some selection \<Rightarrow>
        (if selection < 1 \<or> selection > int n then Inl (InvalidSelection n)
         else Inr (f (xs ! nat (selection - 1))))) =
   (if 1 \<le> k \<and> k \<le> n then Inr (f (xs ! (k - 1))) else Inl (InvalidSelection n))"
proof -
  have "nat (int k - 1) = k - 1" by simp
  then show ?thesis by (auto simp: parseInt_decimal)
qed


text \<open>
  Claim C2, amended. Both selections: an empty list fails with the error that
  there is nothing to select; a list of one record settles on that record
  without a prompt (the device selection returns its identifier, the
  application selection the record); a list of \<open>N > 1\<close> records asks one question,
  and on the line read fails with the validation error for the range from 1 to
  \<open>N\<close> exactly when \<^verbatim>\<open>parseInt\<close> of the trimmed line is \<^verbatim>\<open>NaN\<close> or outside that range,
  and otherwise returns the record at that 1-based position. In particular the
  numeral of \<open>k\<close> returns the \<open>k\<close>-th record for \<open>k\<close> from 1 to \<open>N\<close> and fails for every
  other \<open>k\<close> (so for 0 and for \<open>N + 1\<close>), and every line that does not begin with a
  digit, after white space and a sign, fails.
\<close>

theorem selection_contract:
  "selectDevice [] = Settled (Inl NoDevices) \<and>
   selectApplication [] = Settled (Inl NoApplications) \<and>
   selectDevice [d] = Settled (Inr (identifier d)) \<and>
   selectApplication [a] = Settled (Inr a) \<and>
   (1 < length devices \<longrightarrow>
      prompts (selectDevice devices) \<and>
      answered (selectDevice devices) line =
        (case parseInt (trim line) of
           None \<Rightarrow> Inl (InvalidSelection (length devices))
         | Some k \<Rightarrow>
             (if 1 \<le> k \<and> k \<le> int (length devices)
              then Inr (identifier (devices ! nat (k - 1)))
              else Inl (InvalidSelection (length devices)))) \<and>
      answered (selectDevice devices) (decimal k) =
        (if 1 \<le> k \<and> k \<le> length devices then Inr (identifier (devices ! (k - 1)))
         else Inl (InvalidSelection (length devices))) \<and>
      (\<not> startsWithNumber (trim line) \<longrightarrow>
         answered (selectDevice devices) line = Inl (InvalidSelection (length devices)))) \<and>
   (1 < length applications \<longrightarrow>
      prompts (selectApplication applications) \<and>
      answered (selectApplication applications) line =
        (case parseInt (trim line) of
           None \<Rightarrow> Inl (InvalidSelection (length applications))
         | Some k \<Rightarrow>
             (if 1 \<le> k \<and> k \<le> int (length applications)
              then Inr (applications ! nat (k - 1))
              else Inl (InvalidSelection (length applications)))) \<and>
      answered (selectApplication applications) (decimal k) =
        (if 1 \<le> k \<and> k \<le> length applications then Inr (applications ! (k - 1))
         else Inl (InvalidSelection (length applications))) \<and>
      (\<not> startsWithNumber (trim line) \<longrightarrow>
         answered (selectApplication applications) line =
           Inl (InvalidSelection (length applications))))"
proof (intro conjI impI)
  show "selectDevice [] = Settled (Inl NoDevices)"
    "selectApplication [] = Settled (Inl NoApplications)"
    "selectDevice [d] = Settled (Inr (identifier d))"
    "selectApplication [a] = Settled (Inr a)"
    by (simp_all add: selectDevice_def selectApplication_def)
next
  assume n: "1 < length devices"
  then have q: "selectDevice devices = Question (length devices) (\<lambda>answer.
        (case parseInt (trim answer) of
           None \<Rightarrow> Inl (InvalidSelection (length devices))
         | Some selection \<Rightarrow>
             (if selection < 1 \<or> selection > int (length devices) then
                Inl (InvalidSelection (length devices))
              else Inr (identifier (devices ! nat (selection - 1))))))"
    by (auto simp: selectDevice_def)
  show "prompts (selectDevice devices)" by (simp add: q)
  show "answered (selectDevice devices) line =
        (case parseInt (trim line) of
           None \<Rightarrow> Inl (InvalidSelection (length devices))
         | Some k \<Rightarrow>
             (if 1 \<le> k \<and> k \<le> int (length devices)
              then Inr (identifier (devices ! nat (k - 1)))
              else Inl (InvalidSelection (length devices))))"
    by (simp only: q answered.simps select_answer)
  show "answered (selectDevice devices) (decimal k) =
        (if 1 \<le> k \<and> k \<le> length devices then Inr (identifier (devices ! (k - 1)))
         else Inl (InvalidSelection (length devices)))"
    by (simp only: q answered.simps select_decimal)
  assume "\<not> startsWithNumber (trim line)"
  then have "parseInt (trim line) = None" by (rule parseInt_no_number)
  then show "answered (selectDevice devices) line = Inl (InvalidSelection (length devices))"
    by (simp add: q)
next
  assume n: "1 < length applications"
  then have q: "selectApplication applications = Question (length applications) (\<lambda>answer.
        (case parseInt (trim answer) of
           None \<Rightarrow> Inl (InvalidSelection (length applications))
         | Some selection \<Rightarrow>
             (if selection < 1 \<or> selection > int (length applications) then
                Inl (InvalidSelection (length applications))
              else Inr (applications ! nat (selection - 1)))))"
    by (auto simp: selectApplication_def)
  show "prompts (selectApplication applications)" by (simp add: q)
  show "answered (selectApplication applications) line =
        (case parseInt (trim line) of
           None \<Rightarrow> Inl (InvalidSelection (length applications))
         | Some k \<Rightarrow>
             (if 1 \<le> k \<and> k \<le> int (length applications)
              then Inr (applications ! nat (k - 1))
              else Inl (InvalidSelection (length applications))))"
    by (simp only: q answered.simps select_answer [where f = "\<lambda>x. x"])
  show "answered (selectApplication applications) (decimal k) =
        (if 1 \<le> k \<and> k \<le> length applications then Inr (applications ! (k - 1))
         else Inl (InvalidSelection (length applications)))"
    by (simp only: q answered.simps select_decimal [where f = "\<lambda>x. x"])
  assume "\<not> startsWithNumber (trim line)"
  then have "parseInt (trim line) = None" by (rule parseInt_no_number)
  then show "answered (selectApplication applications) line =
      Inl (InvalidSelection (length applications))"
    by (simp add: q)
qed


lemma selection_examples:
  "decimal 0 = ''0'' \<and> decimal 3 = ''3'' \<and> decimal 4 = ''4'' \<and>
   \<not> startsWithNumber (trim ''abc'')"
  by code_simp

theorem selection_contract_witness:
  "prompts (selectDevice
     [\<lparr>identifier = ''00008030-001A'', name = None, platform = None, connectionType = None\<rparr>,
      \<lparr>identifier = ''00008101-77FF'', name = None, platform = None, connectionType = None\<rparr>,
      \<lparr>identifier = ''00008110-0C0C'', name = None, platform = None, connectionType = None\<rparr>]) \<and>
   answered (selectDevice
     [\<lparr>identifier = ''00008030-001A'', name = None, platform = None, connectionType = None\<rparr>,
      \<lparr>identifier = ''00008101-77FF'', name = None, platform = None, connectionType = None\<rparr>,
      \<lparr>identifier = ''00008110-0C0C'', name = None, platform = None, connectionType = None\<rparr>])
     ''3'' = Inr ''00008110-0C0C'' \<and>
   answered (selectDevice
     [\<lparr>identifier = ''00008030-001A'', name = None, platform = None, connectionType = None\<rparr>,
      \<lparr>identifier = ''00008101-77FF'', name = None, platform = None, connectionType = None\<rparr>,
      \<lparr>identifier = ''00008110-0C0C'', name = None, platform = None, connectionType = None\<rparr>])
     ''0'' = Inl (InvalidSelection 3) \<and>
   answered (selectDevice
     [\<lparr>identifier = ''00008030-001A'', name = None, platform = None, connectionType = None\<rparr>,
      \<lparr>identifier = ''00008101-77FF'', name = None, platform = None, connectionType = None\<rparr>,
      \<lparr>identifier = ''00008110-0C0C'', name = None, platform = None, connectionType = None\<rparr>])
     ''4'' = Inl (InvalidSelection 3) \<and>
   answered (selectDevice
     [\<lparr>identifier = ''00008030-001A'', name = None, platform = None, connectionType = None\<rparr>,
      \<lparr>identifier = ''00008101-77FF'', name = None, platform = None, connectionType = None\<rparr>,
      \<lparr>identifier = ''00008110-0C0C'', name = None, platform = None, connectionType = None\<rparr>])
     ''abc'' = Inl (InvalidSelection 3) \<and>
   prompts (selectApplication
     [\<lparr>bundleId = ''com.example.one'', displayName = None, pid = None, fullPath = None\<rparr>,
      \<lparr>bundleId = ''com.example.two'', displayName = None, pid = None, fullPath = None\<rparr>,
      \<lparr>bundleId = ''com.example.six'', displayName = None, pid = None, fullPath = None\<rparr>]) \<and>
   answered (selectApplication
     [\<lparr>bundleId = ''com.example.one'', displayName = None, pid = None, fullPath = None\<rparr>,
      \<lparr>bundleId = ''com.example.two'', displayName = None, pid = None, fullPath = None\<rparr>,
      \<lparr>bundleId = ''com.example.six'', displayName = None, pid = None, fullPath = None\<rparr>])
     ''3'' =
     Inr \<lparr>bundleId = ''com.example.six'', displayName = None, pid = None, fullPath = None\<rparr> \<and>
   answered (selectApplication
     [\<lparr>bundleId = ''com.example.one'', displayName = None, pid = None, fullPath = None\<rparr>,
      \<lparr>bundleId = ''com.example.two'', displayName = None, pid = None, fullPath = None\<rparr>,
      \<lparr>bundleId = ''com.example.six'', displayName = None, pid = None, fullPath = None\<rparr>])
     ''abc'' = Inl (InvalidSelection 3)"
proof -
  let ?ds =
    "[\<lparr>identifier = ''00008030-001A'', name = None, platform = None, connectionType = None\<rparr>,
      \<lparr>identifier = ''00008101-77FF'', name = None, platform = None, connectionType = None\<rparr>,
      \<lparr>identifier = ''00008110-0C0C'', name = None, platform = None, connectionType = None\<rparr>]"
  let ?as =
    "[\<lparr>bundleId = ''com.example.one'', displayName = None, pid = None, fullPath = None\<rparr>,
      \<lparr>bundleId = ''com.example.two'', displayName = None, pid = None, fullPath = None\<rparr>,
      \<lparr>bundleId = ''com.example.six'', displayName = None, pid = None, fullPath = None\<rparr>]"
  have len: "1 < length ?ds" "1 < length ?as" by simp_all
  note t0 = selection_contract
    [where devices = ?ds and applications = ?as and line = "''abc''" and k = 0]
  note t3 = selection_contract
    [where devices = ?ds and applications = ?as and line = "''abc''" and k = 3]
  note t4 = selection_contract
    [where devices = ?ds and applications = ?as and line = "''abc''" and k = 4]
  note e = selection_examples
  note nonum = e [THEN conjunct2, THEN conjunct2, THEN conjunct2]
  note d0 = t0 [THEN conjunct2, THEN conjunct2, THEN conjunct2, THEN conjunct2, THEN conjunct1,
    THEN mp, OF len(1)]
  note d3 = t3 [THEN conjunct2, THEN conjunct2, THEN conjunct2, THEN conjunct2, THEN conjunct1,
    THEN mp, OF len(1)]
  note d4 = t4 [THEN conjunct2, THEN conjunct2, THEN conjunct2, THEN conjunct2, THEN conjunct1,
    THEN mp, OF len(1)]
  note a3 = t3 [THEN conjunct2, THEN conjunct2, THEN conjunct2, THEN conjunct2, THEN conjunct2,
    THEN mp, OF len(2)]
  have 1: "prompts (selectDevice ?ds)" by (rule d3 [THEN conjunct1])
  have 2: "answered (selectDevice ?ds) ''3'' = Inr ''00008110-0C0C''"
    using d3 [THEN conjunct2, THEN conjunct2, THEN conjunct1] by (simp add: e)
  have 3: "answered (selectDevice ?ds) ''0'' = Inl (InvalidSelection 3)"
    using d0 [THEN conjunct2, THEN conjunct2, THEN conjunct1] by (simp add: e)
  have 4: "answered (selectDevice ?ds) ''4'' = Inl (InvalidSelection 3)"
    using d4 [THEN conjunct2, THEN conjunct2, THEN conjunct1] by (simp add: e)
  have 5: "answered (selectDevice ?ds) ''abc'' = Inl (InvalidSelection 3)"
    using d3 [THEN conjunct2, THEN conjunct2, THEN conjunct2, THEN mp, OF nonum] by simp
  have 6: "prompts (selectApplication ?as)" by (rule a3 [THEN conjunct1])
  have 7: "answered (selectApplication ?as) ''3'' =
      Inr \<lparr>bundleId = ''com.example.six'', displayName = None, pid = None, fullPath = None\<rparr>"
    using a3 [THEN conjunct2, THEN conjunct2, THEN conjunct1] by (simp add: e)
  have 8: "answered (selectApplication ?as) ''abc'' = Inl (InvalidSelection 3)"
    using a3 [THEN conjunct2, THEN conjunct2, THEN conjunct2, THEN mp, OF nonum] by simp
  from 1 2 3 4 5 6 7 8 show ?thesis by (intro conjI)
qed

section \<open>Tabular device parsing\<close>

lemma isHeaderLine_iff:
  "isHeaderLine l \<longleftrightarrow>
     (\<exists>p q. l = p @ ''Name'' @ q) \<and> (\<exists>p q. l = p @ ''Identifier'' @ q) \<and>
     (\<exists>p q. l = p @ ''State'' @ q) \<and> (\<exists>p q. l = p @ ''Model'' @ q)"
  by (simp only: isHeaderLine_def includes_str_iff)

lemma substring_slice:
  "0 \<le> a \<Longrightarrow> a \<le> b \<Longrightarrow> substring s a b = take (nat (b - a)) (drop (nat a) s)"
proof -
  assume a: "0 \<le> a" "a \<le> b"
  show ?thesis
  proof (cases "b \<le> int (length s)")
    case True
    with a show ?thesis by (simp add: substring_def Let_def min_def max_def)
  next
    case False
    show ?thesis
    proof (cases "a \<le> int (length s)")
      case True
      with a False have "substring s a b = take (length s - nat a) (drop (nat a) s)"
        by (simp add: substring_def Let_def min_def max_def nat_diff_distrib)
      moreover from a False have "length (drop (nat a) s) \<le> nat (b - a)" by simp
      ultimately show ?thesis by simp
    next
      case False
      with a \<open>\<not> b \<le> int (length s)\<close> show ?thesis
        by (simp add: substring_def Let_def min_def max_def)
    qed
  qed
qed

lemma findHeader_first:
  "h < length ls \<Longrightarrow> isHeaderLine (ls ! h) \<Longrightarrow> \<forall>j<h. \<not> isHeaderLine (ls ! j) \<Longrightarrow>
   findHeader ls i =
     Some \<lparr>headerLineIndex = i + int h,
           nameColStart = indexOf (ls ! h) ''Name'',
           identifierColStart = indexOf (ls ! h) ''Identifier'',
           stateColStart = indexOf (ls ! h) ''State'',
           modelColStart = indexOf (ls ! h) ''Model''\<rparr>"
proof (induction ls arbitrary: i h)
  case Nil
  then show ?case by simp
next
  case (Cons l ls)
  show ?case
  proof (cases h)
    case 0
    with Cons.prems show ?thesis by simp
  next
    case (Suc h')
    from Cons.prems(3) Suc have "\<not> isHeaderLine ((l # ls) ! 0)" by blast
    then have no: "\<not> isHeaderLine l" by simp
    have "\<forall>j<h'. \<not> isHeaderLine (ls ! j)"
    proof (intro allI impI)
      fix j assume "j < h'"
      then have "Suc j < h" using Suc by simp
      with Cons.prems(3) have "\<not> isHeaderLine ((l # ls) ! Suc j)" by blast
      then show "\<not> isHeaderLine (ls ! j)" by simp
    qed
    moreover from Cons.prems Suc have "h' < length ls" "isHeaderLine (ls ! h')" by simp_all
    ultimately have "findHeader ls (i + 1) =
      Some \<lparr>headerLineIndex = (i + 1) + int h',
           nameColStart = indexOf (ls ! h') ''Name'',
           identifierColStart = indexOf (ls ! h') ''Identifier'',
           stateColStart = indexOf (ls ! h') ''State'',
           modelColStart = indexOf (ls ! h') ''Model''\<rparr>"
      by (intro Cons.IH)
    with no Suc show ?thesis by simp
  qed
qed

lemma findHeader_none: "\<forall>l\<in>set ls. \<not> isHeaderLine l \<Longrightarrow> findHeader ls i = None"
  by (induction ls arbitrary: i) simp_all

lemma parseRow_row:
  assumes "nameColStart h = indexOf hdr ''Name''"
    "identifierColStart h = indexOf hdr ''Identifier''"
    "stateColStart h = indexOf hdr ''State''" "modelColStart h = indexOf hdr ''Model''"
  shows "parseRow h devices line =
     (if rowAccepted hdr line then devices @ [rowDevice hdr line] else devices)"
  by (auto simp: parseRow_def Let_def assms rowAccepted_def rowDevice_def rowName_def
      rowIdentifier_def rowState_def rowModel_def)

lemma foldl_parseRow:
  assumes "nameColStart h = indexOf hdr ''Name''"
    "identifierColStart h = indexOf hdr ''Identifier''"
    "stateColStart h = indexOf hdr ''State''" "modelColStart h = indexOf hdr ''Model''"
  shows "foldl (parseRow h) devices rows =
     devices @ map (rowDevice hdr) (filter (rowAccepted hdr) rows)"
  by (induction rows arbitrary: devices) (simp_all add: parseRow_row [OF assms])

lemma tabular_rows:
  assumes "h < length (lines_of out)" "isHeaderLine (lines_of out ! h)"
    "\<forall>j<h. \<not> isHeaderLine (lines_of out ! j)"
  shows "parseDeviceOutput out =
     map (rowDevice (lines_of out ! h))
       (filter (rowAccepted (lines_of out ! h)) (drop (h + 2) (lines_of out)))"
proof -
  have "nat (int h + 2) = h + 2" by simp
  then show ?thesis
    unfolding parseDeviceOutput_def Let_def
    by (simp add: findHeader_first [OF assms, of 0] foldl_parseRow [where hdr = "lines_of out ! h"])
qed


lemma indexOfFrom_first:
  "s = p @ t @ q \<Longrightarrow> (\<forall>p' q'. s = p' @ t @ q' \<longrightarrow> length p \<le> length p') \<Longrightarrow>
   indexOfFrom s t i = i + int (length p)"
proof (induction p arbitrary: s i)
  case Nil
  then have e: "s = t @ q" by simp
  then have sw: "startsWith s t" by (auto simp: startsWith_iff)
  show ?case
  proof (cases s)
    case Nil
    with e show ?thesis by simp
  next
    case (Cons c cs)
    with sw show ?thesis by simp
  qed
next
  case (Cons c p)
  have no: "\<not> startsWith s t"
  proof
    assume "startsWith s t"
    then obtain q' where "s = [] @ t @ q'" by (auto simp: startsWith_iff)
    with Cons.prems(2) have "length (c # p) \<le> length ([] :: string)" by blast
    then show False by simp
  qed
  have min: "\<forall>p' q'. p @ t @ q = p' @ t @ q' \<longrightarrow> length p \<le> length p'"
  proof (intro allI impI)
    fix p' q' assume "p @ t @ q = p' @ t @ q'"
    then have "s = (c # p') @ t @ q'" using Cons.prems(1) by simp
    with Cons.prems(2) have "length (c # p) \<le> length (c # p')" by blast
    then show "length p \<le> length p'" by simp
  qed
  have "indexOfFrom (p @ t @ q) t (i + 1) = (i + 1) + int (length p)"
    by (rule Cons.IH [OF refl min])
  with no Cons.prems(1) show ?case by simp
qed

lemma tabular_counter_example:
  "parseDeviceOutput
     (''Name      Identifier             State    Model'' @ [CHR 0x0A] @
      ''My Phone  00008030-001A2B3C4D5E  paired   iPhone 15 Pro'') = [] \<and>
   isHeaderLine ''Name      Identifier             State    Model'' \<and>
   rowIdentifier ''Name      Identifier             State    Model''
     ''My Phone  00008030-001A2B3C4D5E  paired   iPhone 15 Pro'' = ''00008030-001A2B3C4D5E'' \<and>
   length ''00008030-001A2B3C4D5E'' = 21"
  by code_simp

text \<open>
  Claim C1 as stated fails for a data row that directly follows the header line:
  the text below has one header line with the four labels and one data row whose
  identifier slice has 21 characters, and the parser returns no record.
\<close>

theorem tabular_row_after_header_counterexample:
  "isHeaderLine ''Name      Identifier             State    Model'' \<and>
   length (rowIdentifier ''Name      Identifier             State    Model''
     ''My Phone  00008030-001A2B3C4D5E  paired   iPhone 15 Pro'') \<ge> 11 \<and>
   parseDeviceOutput
     (''Name      Identifier             State    Model'' @ [CHR 0x0A] @
      ''My Phone  00008030-001A2B3C4D5E  paired   iPhone 15 Pro'') = []"
  using tabular_counter_example by simp

text \<open>
  Claim C1, amended. The header is the first line that contains the four labels
  \<^verbatim>\<open>Name\<close>, \<^verbatim>\<open>Identifier\<close>, \<^verbatim>\<open>State\<close> and \<^verbatim>\<open>Model\<close>; the line directly after it is
  skipped as the separator line. Every later line that is not blank is sliced at
  the columns where the labels first start in the header (\<^verbatim>\<open>substring\<close>, so for
  columns \<open>a \<le> b\<close> the characters from \<open>a\<close> up to \<open>b\<close>), the four slices are trimmed,
  and the records returned are, in order, those of exactly the lines whose
  trimmed identifier slice is longer than 10 characters. In particular a header
  line, a separator line and one data row with such an identifier yield exactly
  one record.
\<close>

theorem tabular_parsing:
  "(h < length (lines_of out) \<and> isHeaderLine (lines_of out ! h) \<and>
    (\<forall>j<h. \<not> isHeaderLine (lines_of out ! j)) \<longrightarrow>
    parseDeviceOutput out =
      map (rowDevice (lines_of out ! h))
        (filter (rowAccepted (lines_of out ! h)) (drop (h + 2) (lines_of out)))) \<and>
   (isHeaderLine l \<longleftrightarrow>
      (\<exists>p q. l = p @ ''Name'' @ q) \<and> (\<exists>p q. l = p @ ''Identifier'' @ q) \<and>
      (\<exists>p q. l = p @ ''State'' @ q) \<and> (\<exists>p q. l = p @ ''Model'' @ q)) \<and>
   (l = p @ lab @ q \<and> (\<forall>p' q'. l = p' @ lab @ q' \<longrightarrow> length p \<le> length p') \<longrightarrow>
      indexOf l lab = int (length p)) \<and>
   (0 \<le> a \<and> a \<le> b \<longrightarrow> substring s a b = take (nat (b - a)) (drop (nat a) s))"
proof (intro conjI impI)
  assume "h < length (lines_of out) \<and> isHeaderLine (lines_of out ! h) \<and>
    (\<forall>j<h. \<not> isHeaderLine (lines_of out ! j))"
  then show "parseDeviceOutput out =
      map (rowDevice (lines_of out ! h))
        (filter (rowAccepted (lines_of out ! h)) (drop (h + 2) (lines_of out)))"
    by (intro tabular_rows) blast+
next
  show "isHeaderLine l \<longleftrightarrow>
      (\<exists>p q. l = p @ ''Name'' @ q) \<and> (\<exists>p q. l = p @ ''Identifier'' @ q) \<and>
      (\<exists>p q. l = p @ ''State'' @ q) \<and> (\<exists>p q. l = p @ ''Model'' @ q)"
    by (rule isHeaderLine_iff)
next
  assume "l = p @ lab @ q \<and> (\<forall>p' q'. l = p' @ lab @ q' \<longrightarrow> length p \<le> length p')"
  then have "indexOfFrom l lab 0 = 0 + int (length p)"
    by (intro indexOfFrom_first) blast+
  then show "indexOf l lab = int (length p)" by (simp add: indexOf_def)
next
  assume "0 \<le> a \<and> a \<le> b"
  then show "substring s a b = take (nat (b - a)) (drop (nat a) s)"
    by (intro substring_slice) blast+
qed

lemma tabular_witness_lines:
  "lines_of
     (''Devices:'' @ [CHR 0x0A] @
      ''Name      Identifier             State    Model'' @ [CHR 0x0A] @
      ''--------  ---------------------  -------  -------------'' @ [CHR 0x0A] @
      ''My Phone  00008030-001A2B3C4D5E  paired   iPhone 15 Pro'' @ [CHR 0x0A]) =
   [''Devices:'',
    ''Name      Identifier             State    Model'',
    ''--------  ---------------------  -------  -------------'',
    ''My Phone  00008030-001A2B3C4D5E  paired   iPhone 15 Pro'',
    []]"
  by code_simp

lemma tabular_witness_rows:
  "\<not> isHeaderLine ''Devices:'' \<and>
   isHeaderLine ''Name      Identifier             State    Model'' \<and>
   map (rowDevice ''Name      Identifier             State    Model'')
     (filter (rowAccepted ''Name      Identifier             State    Model'')
        [''My Phone  00008030-001A2B3C4D5E  paired   iPhone 15 Pro'', []]) =
   [\<lparr>identifier = ''00008030-001A2B3C4D5E'', name = Some ''My Phone'',
     platform = Some ''iOS'', connectionType = Some ''paired''\<rparr>]"
  by code_simp

theorem tabular_parsing_witness:
  "parseDeviceOutput
     (''Devices:'' @ [CHR 0x0A] @
      ''Name      Identifier             State    Model'' @ [CHR 0x0A] @
      ''--------  ---------------------  -------  -------------'' @ [CHR 0x0A] @
      ''My Phone  00008030-001A2B3C4D5E  paired   iPhone 15 Pro'' @ [CHR 0x0A]) =
   [\<lparr>identifier = ''00008030-001A2B3C4D5E'', name = Some ''My Phone'',
     platform = Some ''iOS'', connectionType = Some ''paired''\<rparr>] \<and>
   indexOf ''Name      Identifier             State    Model'' ''Identifier'' = 10 \<and>
   substring ''My Phone  00008030-001A2B3C4D5E  paired   iPhone 15 Pro'' 10 33 =
     ''00008030-001A2B3C4D5E  ''"
proof -
  let ?out = "''Devices:'' @ [CHR 0x0A] @
      ''Name      Identifier             State    Model'' @ [CHR 0x0A] @
      ''--------  ---------------------  -------  -------------'' @ [CHR 0x0A] @
      ''My Phone  00008030-001A2B3C4D5E  paired   iPhone 15 Pro'' @ [CHR 0x0A]"
  note t = tabular_parsing [where out = ?out and h = 1]
  have hyp: "1 < length (lines_of ?out) \<and> isHeaderLine (lines_of ?out ! 1) \<and>
    (\<forall>j<1. \<not> isHeaderLine (lines_of ?out ! j))"
    unfolding tabular_witness_lines using tabular_witness_rows by simp
  have rows: "parseDeviceOutput ?out =
      [\<lparr>identifier = ''00008030-001A2B3C4D5E'', name = Some ''My Phone'',
        platform = Some ''iOS'', connectionType = Some ''paired''\<rparr>]"
    using t [THEN conjunct1, THEN mp, OF hyp] tabular_witness_rows
    unfolding tabular_witness_lines by simp
  have min: "''Name      Identifier             State    Model'' =
      ''Name      '' @ ''Identifier'' @ ''             State    Model'' \<and>
      (\<forall>p' q'. ''Name      Identifier             State    Model'' = p' @ ''Identifier'' @ q' \<longrightarrow>
         length ''Name      '' \<le> length p')"
  proof (intro conjI allI impI)
    show "''Name      Identifier             State    Model'' =
      ''Name      '' @ ''Identifier'' @ ''             State    Model''" by simp
    fix p' q' :: string
    assume e: "''Name      Identifier             State    Model'' = p' @ ''Identifier'' @ q'"
    show "length ''Name      '' \<le> length p'"
    proof (rule ccontr)
      assume "\<not> length ''Name      '' \<le> length p'"
      then have "length p' < 10" by simp
      moreover from e have "''Name      Identifier             State    Model'' ! length p' = CHR ''I''"
        by (simp only: nth_append_length append.simps)
      ultimately show False
        by (auto simp: less_Suc_eq numeral_eq_Suc)
    qed
  qed
  have col: "indexOf ''Name      Identifier             State    Model'' ''Identifier'' = 10"
    using tabular_parsing
      [where l = "''Name      Identifier             State    Model''" and p = "''Name      ''"
         and lab = "''Identifier''" and q = "''             State    Model''",
       THEN conjunct2, THEN conjunct2, THEN conjunct1, THEN mp, OF min]
    by simp
  have slice: "substring ''My Phone  00008030-001A2B3C4D5E  paired   iPhone 15 Pro'' 10 33 =
     ''00008030-001A2B3C4D5E  ''"
    using tabular_parsing
      [where s = "''My Phone  00008030-001A2B3C4D5E  paired   iPhone 15 Pro''" and a = 10 and b = 33,
       THEN conjunct2, THEN conjunct2, THEN conjunct2]
    by simp
  from rows col slice show ?thesis by (intro conjI)
qed

end
